theory Spec2Isabelle
  imports Main
begin

section \<open>The call-tree observer of the dispatch CLI (cli/tui.go)\<close>

text \<open>
  The development embeds the store of function calls kept by the terminal user interface,
  its two event handlers \<open>ObserveRequest\<close> and \<open>ObserveResponse\<close>, the status
  classifiers and the row builder of the functions tab.

  Conventions of the embedding.
  \<^item> A \<open>time.Time\<close> is the number of nanoseconds since the zero instant of that type, so
    \<open>IsZero\<close> is equality with 0; readings of \<open>time.Now()\<close> are an argument \<open>now\<close> of
    the operation that takes them. A \<open>time.Duration\<close> is a signed 64-bit count of
    nanoseconds; \<open>Sub\<close> saturates at its bounds and \<open>Truncate\<close> rounds toward zero, as
    the Go library documents.
  \<^item> The counters \<open>failures\<close> and \<open>responses\<close> are Go \<open>int\<close>s, taken to be 64 bits
    wide. They start at 0 and grow by one per observed response, so the store holds them as
    integers and \<open>ObserveResponse\<close> increments them without wrap-around. The row
    builder takes any node; its increment of the attempts count wraps around as the Go
    addition does (\<open>go_int\<close>).
  \<^item> A Go \<open>error\<close> is the text its \<open>Error()\<close> method returns; \<open>nil\<close> is \<open>None\<close>.
  \<^item> A Go map that may be \<open>nil\<close> is an \<open>option\<close>: reading a \<open>nil\<close> map yields the zero
    value, writing to it panics.
  \<^item> Text styled by the terminal library is kept symbolic: a rendered string is a list of
    segments, each either plain or rendered in one of the named styles.
  \<^item> A panic is the error side of a sum type.
  \<^item> The mutex, the log buffer, the key bindings and the viewport are not part of the model.
  \<^item> Pointers to protocol messages (\<open>req\<close>, \<open>d.Exit\<close>) are taken to be non-nil, as the
    decoder produces them; optional sub-messages (\<open>CreationTime\<close>, \<open>TailCall\<close>,
    \<open>Result\<close>, \<open>Error\<close>) are \<open>option\<close>s.
\<close>

subsection \<open>Protocol messages\<close>

type_synonym DispatchID = string
type_synonym time = int
type_synonym Duration = int

text \<open>
  The outcome codes that tui.go names, and \<open>Status_other c\<close> for any code \<open>c\<close> it does
  not name. The zero value of the enumeration is \<open>STATUS_UNSPECIFIED\<close>.
\<close>

datatype Status =
    STATUS_UNSPECIFIED
  | STATUS_OK
  | STATUS_TIMEOUT
  | STATUS_THROTTLED
  | STATUS_INVALID_ARGUMENT
  | STATUS_TEMPORARY_ERROR
  | STATUS_PERMANENT_ERROR
  | STATUS_INCOMPATIBLE_STATE
  | STATUS_DNS_ERROR
  | STATUS_TCP_ERROR
  | STATUS_TLS_ERROR
  | STATUS_HTTP_ERROR
  | STATUS_UNAUTHENTICATED
  | STATUS_PERMISSION_DENIED
  | STATUS_NOT_FOUND
  | Status_other int

record RunRequest =
  RootDispatchId :: string
  ParentDispatchId :: string
  DispatchId :: string
  Function :: string
  CreationTime :: "time option"
  ExpirationTime :: "time option"

record Error =
  Type :: string
  Message :: string

record CallResult =
  Error :: "Error option"

record Call =
  Call_Function :: string

record Exit =
  Result :: "CallResult option"
  TailCall :: "Call option"

datatype Directive =
    Directive_nil
  | RunResponse_Exit Exit
  | RunResponse_Poll

record RunResponse =
  Status :: Status
  Directive :: Directive

subsection \<open>The store\<close>

record node =
  function' :: string
  failures :: int
  responses :: int
  status :: Status
  error :: "string option"
  running :: bool
  done' :: bool
  creationTime :: time
  expirationTime :: time
  doneTime :: time
  children :: "DispatchID set option"
  orderedChildren :: "DispatchID list"

record TUI =
  roots :: "DispatchID set option"
  orderedRoots :: "DispatchID list"
  nodes :: "(DispatchID \<rightharpoonup> node) option"
  spinner :: string

datatype panic = Panic string

text \<open>The zero value \<open>node{}\<close> and the zero value of the store.\<close>

definition node_zero :: node where
  "node_zero =
     \<lparr> function' = [], failures = 0, responses = 0, status = STATUS_UNSPECIFIED,
       error = None, running = False, done' = False, creationTime = 0,
       expirationTime = 0, doneTime = 0, children = None, orderedChildren = [] \<rparr>"

definition TUI_zero :: "string \<Rightarrow> TUI" where
  "TUI_zero sp = \<lparr> roots = None, orderedRoots = [], nodes = None, spinner = sp \<rparr>"

definition parseID :: "string \<Rightarrow> DispatchID" where
  "parseID s = s"

text \<open>\<open>t.nodes[id]\<close> as an expression: the zero node for a missing key or a nil map.\<close>

definition nodes_get :: "TUI \<Rightarrow> DispatchID \<Rightarrow> node" where
  "nodes_get t i =
     (case nodes t of
        None \<Rightarrow> node_zero
      | Some m \<Rightarrow> (case m i of None \<Rightarrow> node_zero | Some n \<Rightarrow> n))"

text \<open>The two-valued lookup \<open>n, ok := t.nodes[id]\<close>: \<open>None\<close> when \<open>ok\<close> is false.\<close>

definition nodes_lookup :: "TUI \<Rightarrow> DispatchID \<Rightarrow> node option" where
  "nodes_lookup t i = (case nodes t of None \<Rightarrow> None | Some m \<Rightarrow> m i)"

subsection \<open>Time\<close>

definition IsZero :: "time \<Rightarrow> bool" where
  "IsZero t = (t = 0)"

definition Before :: "time \<Rightarrow> time \<Rightarrow> bool" where
  "Before t u = (t < u)"

definition minDuration :: Duration where
  "minDuration = - (2 ^ 63)"

definition maxDuration :: Duration where
  "maxDuration = 2 ^ 63 - 1"

definition Sub :: "time \<Rightarrow> time \<Rightarrow> Duration" where
  "Sub t u =
     (if t - u < minDuration then minDuration
      else if maxDuration < t - u then maxDuration
      else t - u)"

definition Millisecond :: Duration where
  "Millisecond = 1000000"

text \<open>Go's remainder has the sign of the dividend.\<close>

definition go_rem :: "int \<Rightarrow> int \<Rightarrow> int" where
  "go_rem a b = (if a < 0 then - ((- a) mod \<bar>b\<bar>) else a mod \<bar>b\<bar>)"

definition go_quot :: "int \<Rightarrow> int \<Rightarrow> int" where
  "go_quot a b =
     (if (a < 0) = (b < 0) then \<bar>a\<bar> div \<bar>b\<bar> else - (\<bar>a\<bar> div \<bar>b\<bar>))"

definition Truncate :: "Duration \<Rightarrow> Duration \<Rightarrow> Duration" where
  "Truncate d m = (if m \<le> 0 then d else d - go_rem d m)"

text \<open>
  The value a 64-bit Go \<open>int\<close> holds after an arithmetic operation whose exact result is
  \<open>x\<close>: the result wraps around in two's complement.
\<close>

definition go_int :: "int \<Rightarrow> int" where
  "go_int x = (x + 2 ^ 63) mod 2 ^ 64 - 2 ^ 63"

subsection \<open>Status classification\<close>

fun terminalStatus :: "Status \<Rightarrow> bool" where
  "terminalStatus STATUS_TIMEOUT = False"
| "terminalStatus STATUS_THROTTLED = False"
| "terminalStatus STATUS_TEMPORARY_ERROR = False"
| "terminalStatus STATUS_INCOMPATIBLE_STATE = False"
| "terminalStatus STATUS_DNS_ERROR = False"
| "terminalStatus STATUS_TCP_ERROR = False"
| "terminalStatus STATUS_TLS_ERROR = False"
| "terminalStatus STATUS_HTTP_ERROR = False"
| "terminalStatus _ = True"

definition StatusRequestTimeout :: int where
  "StatusRequestTimeout = 408"

definition StatusTooManyRequests :: int where
  "StatusTooManyRequests = 429"

definition StatusNotImplemented :: int where
  "StatusNotImplemented = 501"

definition terminalHTTPStatusCode :: "int \<Rightarrow> bool" where
  "terminalHTTPStatusCode code =
     (if go_quot code 100 = 4 then
        code \<noteq> StatusRequestTimeout \<and> code \<noteq> StatusTooManyRequests
      else if go_quot code 100 = 5 then code = StatusNotImplemented
      else True)"

text \<open>Decimal formatting of an integer (\<open>%d\<close>, \<open>strconv.Itoa\<close>).\<close>

fun digits :: "nat \<Rightarrow> string" where
  "digits n =
     (if n < 10 then [''0123456789'' ! n]
      else digits (n div 10) @ [''0123456789'' ! (n mod 10)])"

declare digits.simps [simp del]

definition itoa :: "int \<Rightarrow> string" where
  "itoa i = (if i < 0 then CHR ''-'' # digits (nat (- i)) else digits (nat i))"

text \<open>
  The generated \<open>String()\<close> method of the enumeration: the constant's name, or the number
  in decimal for a code without a name.
\<close>

fun Status_String :: "Status \<Rightarrow> string" where
  "Status_String STATUS_UNSPECIFIED = ''STATUS_UNSPECIFIED''"
| "Status_String STATUS_OK = ''STATUS_OK''"
| "Status_String STATUS_TIMEOUT = ''STATUS_TIMEOUT''"
| "Status_String STATUS_THROTTLED = ''STATUS_THROTTLED''"
| "Status_String STATUS_INVALID_ARGUMENT = ''STATUS_INVALID_ARGUMENT''"
| "Status_String STATUS_TEMPORARY_ERROR = ''STATUS_TEMPORARY_ERROR''"
| "Status_String STATUS_PERMANENT_ERROR = ''STATUS_PERMANENT_ERROR''"
| "Status_String STATUS_INCOMPATIBLE_STATE = ''STATUS_INCOMPATIBLE_STATE''"
| "Status_String STATUS_DNS_ERROR = ''STATUS_DNS_ERROR''"
| "Status_String STATUS_TCP_ERROR = ''STATUS_TCP_ERROR''"
| "Status_String STATUS_TLS_ERROR = ''STATUS_TLS_ERROR''"
| "Status_String STATUS_HTTP_ERROR = ''STATUS_HTTP_ERROR''"
| "Status_String STATUS_UNAUTHENTICATED = ''STATUS_UNAUTHENTICATED''"
| "Status_String STATUS_PERMISSION_DENIED = ''STATUS_PERMISSION_DENIED''"
| "Status_String STATUS_NOT_FOUND = ''STATUS_NOT_FOUND''"
| "Status_String (Status_other c) = itoa c"

fun statusString :: "Status \<Rightarrow> string" where
  "statusString STATUS_OK = ''OK''"
| "statusString STATUS_TIMEOUT = ''Timeout''"
| "statusString STATUS_THROTTLED = ''Throttled''"
| "statusString STATUS_INVALID_ARGUMENT = ''Invalid response''"
| "statusString STATUS_TEMPORARY_ERROR = ''Temporary error''"
| "statusString STATUS_PERMANENT_ERROR = ''Permanent error''"
| "statusString STATUS_INCOMPATIBLE_STATE = ''Incompatible state''"
| "statusString STATUS_DNS_ERROR = ''DNS error''"
| "statusString STATUS_TCP_ERROR = ''TCP error''"
| "statusString STATUS_TLS_ERROR = ''TLS error''"
| "statusString STATUS_HTTP_ERROR = ''HTTP error''"
| "statusString STATUS_UNAUTHENTICATED = ''Unauthenticated''"
| "statusString STATUS_PERMISSION_DENIED = ''Permission denied''"
| "statusString STATUS_NOT_FOUND = ''Not found''"
| "statusString s = Status_String s"

subsection \<open>ObserveRequest\<close>

text \<open>
  The three steps of \<open>ObserveRequest\<close>, in the order of the source, on the maps after
  their lazy initialisation. \<open>upsertRoot\<close> registers the root and stores its node;
  \<open>upsertNode\<close> updates the node of the call; \<open>upsertParent\<close> looks the parent up
  in the store as the first two steps left it, and links the child.
\<close>

definition upsertRoot ::
  "DispatchID \<Rightarrow> DispatchID set \<times> DispatchID list \<times> (DispatchID \<rightharpoonup> node) \<Rightarrow>
   DispatchID set \<times> DispatchID list \<times> (DispatchID \<rightharpoonup> node)" where
  "upsertRoot rootID s =
     (case s of (rs, ors, ns) \<Rightarrow>
        (let (rs', ors') = (if rootID \<notin> rs then (insert rootID rs, ors @ [rootID]) else (rs, ors));
             root = (case ns rootID of None \<Rightarrow> node_zero | Some r \<Rightarrow> r)
         in (rs', ors', ns(rootID \<mapsto> root))))"

definition upsertNode_node :: "time \<Rightarrow> RunRequest \<Rightarrow> node \<Rightarrow> node" where
  "upsertNode_node now req n0 =
     (let n = n0\<lparr>function' := Function req, running := True\<rparr>;
          n = (case CreationTime req of None \<Rightarrow> n | Some c \<Rightarrow> n\<lparr>creationTime := c\<rparr>);
          n = (if IsZero (creationTime n) then n\<lparr>creationTime := now\<rparr> else n);
          n = (case ExpirationTime req of None \<Rightarrow> n | Some e \<Rightarrow> n\<lparr>expirationTime := e\<rparr>)
      in n)"

definition upsertNode ::
  "time \<Rightarrow> RunRequest \<Rightarrow> DispatchID \<Rightarrow> (DispatchID \<rightharpoonup> node) \<Rightarrow> (DispatchID \<rightharpoonup> node)" where
  "upsertNode now req i ns =
     (let n = (case ns i of None \<Rightarrow> node_zero | Some n \<Rightarrow> n)
      in ns(i \<mapsto> upsertNode_node now req n))"

definition linkChild :: "DispatchID \<Rightarrow> node \<Rightarrow> node" where
  "linkChild i parent =
     (let cs = (case children parent of None \<Rightarrow> {} | Some c \<Rightarrow> c)
      in if i \<notin> cs
         then parent\<lparr>children := Some (insert i cs),
                      orderedChildren := orderedChildren parent @ [i]\<rparr>
         else parent\<lparr>children := Some cs\<rparr>)"

definition upsertParent ::
  "DispatchID \<Rightarrow> DispatchID \<Rightarrow> DispatchID \<Rightarrow> (DispatchID \<rightharpoonup> node) \<Rightarrow>
   panic + (DispatchID \<rightharpoonup> node)" where
  "upsertParent rootID parentID i ns =
     (if parentID \<noteq> [] then
        (case ns parentID of
           None \<Rightarrow>
             if parentID \<noteq> rootID then Inl (Panic ''not implemented'')
             else Inr (ns(parentID \<mapsto> linkChild i node_zero))
         | Some parent \<Rightarrow> Inr (ns(parentID \<mapsto> linkChild i parent)))
      else Inr ns)"

definition ObserveRequest :: "time \<Rightarrow> TUI \<Rightarrow> RunRequest \<Rightarrow> panic + TUI" where
  "ObserveRequest now t req =
     (let rs0 = (case roots t of None \<Rightarrow> {} | Some r \<Rightarrow> r);
          ns0 = (case nodes t of None \<Rightarrow> Map.empty | Some m \<Rightarrow> m);
          rootID = parseID (RootDispatchId req);
          parentID = parseID (ParentDispatchId req);
          i = parseID (DispatchId req);
          (rs1, ors1, ns1) = upsertRoot rootID (rs0, orderedRoots t, ns0);
          ns2 = upsertNode now req i ns1
      in case upsertParent rootID parentID i ns2 of
           Inl p \<Rightarrow> Inl p
         | Inr ns3 \<Rightarrow>
             Inr (t\<lparr>roots := Some rs1, orderedRoots := ors1, nodes := Some ns3\<rparr>))"

text \<open>A sequence of requests, each with the clock reading of its call; a panic ends it.\<close>

fun ObserveRequests :: "TUI \<Rightarrow> (time \<times> RunRequest) list \<Rightarrow> panic + TUI" where
  "ObserveRequests t [] = Inr t"
| "ObserveRequests t ((now, req) # rest) =
     (case ObserveRequest now t req of
        Inl p \<Rightarrow> Inl p
      | Inr t' \<Rightarrow> ObserveRequests t' rest)"

subsection \<open>ObserveResponse\<close>

definition Errorf_type :: "Error \<Rightarrow> string" where
  "Errorf_type e =
     (if Message e = [] then Type e else Type e @ '': '' @ Message e)"

text \<open>The body of the \<open>RunResponse_Exit\<close> case of the switch on the directive.\<close>

definition ObserveResponse_exit :: "RunResponse \<Rightarrow> Exit \<Rightarrow> node \<Rightarrow> node" where
  "ObserveResponse_exit res ex n0 =
     (let n = n0\<lparr>status := Status res, done' := terminalStatus (Status res)\<rparr>
      in case TailCall ex of
           Some c \<Rightarrow> node_zero\<lparr>function' := Call_Function c\<rparr>
         | None \<Rightarrow>
             (if Status res \<noteq> STATUS_OK \<and> Result ex \<noteq> None then
                (case Error (the (Result ex)) of
                   None \<Rightarrow> n
                 | Some e \<Rightarrow> if Type e \<noteq> [] then n\<lparr>error := Some (Errorf_type e)\<rparr> else n)
              else n))"

text \<open>
  What \<open>ObserveResponse\<close> does to its local copy \<open>n\<close> of the node between reading it
  from the store and writing it back.
\<close>

definition ObserveResponse_node ::
  "time \<Rightarrow> string option \<Rightarrow> int option \<Rightarrow> RunResponse option \<Rightarrow> node \<Rightarrow> node" where
  "ObserveResponse_node now err httpRes res n0 =
     (let n = n0\<lparr>responses := responses n0 + 1, error := None,
                  status := STATUS_UNSPECIFIED, running := False\<rparr>;
          n = (case res of
                 Some r \<Rightarrow>
                   (let n = (case Status r of
                               STATUS_OK \<Rightarrow> n
                             | STATUS_INCOMPATIBLE_STATE \<Rightarrow> node_zero\<lparr>function' := function' n\<rparr>
                             | _ \<Rightarrow> n\<lparr>failures := failures n + 1\<rparr>)
                    in case Directive r of
                         RunResponse_Exit ex \<Rightarrow> ObserveResponse_exit r ex n
                       | RunResponse_Poll \<Rightarrow> n
                       | Directive_nil \<Rightarrow> n)
               | None \<Rightarrow>
                   (case httpRes of
                      Some code \<Rightarrow>
                        n\<lparr>failures := failures n + 1,
                          error := Some (''unexpected HTTP status code '' @ itoa code),
                          done' := terminalHTTPStatusCode code\<rparr>
                    | None \<Rightarrow>
                        (case err of
                           Some e \<Rightarrow> n\<lparr>failures := failures n + 1, error := Some e\<rparr>
                         | None \<Rightarrow> n)))
      in if done' n \<and> IsZero (doneTime n) then n\<lparr>doneTime := now\<rparr> else n)"

definition ObserveResponse ::
  "time \<Rightarrow> TUI \<Rightarrow> RunRequest \<Rightarrow> string option \<Rightarrow> int option \<Rightarrow> RunResponse option \<Rightarrow>
   panic + TUI" where
  "ObserveResponse now t req err httpRes res =
     (let i = parseID (DispatchId req);
          n = ObserveResponse_node now err httpRes res (nodes_get t i)
      in case nodes t of
           None \<Rightarrow> Inl (Panic ''assignment to entry in nil map'')
         | Some m \<Rightarrow> Inr (t\<lparr>nodes := Some (m(i \<mapsto> n))\<rparr>))"

subsection \<open>Rendering the functions tab\<close>

datatype Style = pendingStyle | retryStyle | errorStyle | okStyle | spinnerStyle | treeStyle

datatype segment = Render Style string | Plain string

type_synonym rendered = "segment list"

record row =
  row_spinner :: rendered
  row_attempts :: int
  row_elapsed :: Duration
  row_function :: rendered
  row_status :: rendered

text \<open>The box-drawing glyphs of the tree prefix, as their UTF-8 bytes.\<close>

definition glyph_last :: string where
  "glyph_last = [CHR 0xE2, CHR 0x94, CHR 0x94, CHR 0xE2, CHR 0x94, CHR 0x80]"

definition glyph_tee :: string where
  "glyph_tee = [CHR 0xE2, CHR 0x94, CHR 0x9C, CHR 0xE2, CHR 0x94, CHR 0x80]"

definition glyph_bar :: string where
  "glyph_bar = [CHR 0xE2, CHR 0x94, CHR 0x82, CHR '' '']"

fun treePrefix :: "bool list \<Rightarrow> rendered" where
  "treePrefix [] = []"
| "treePrefix [l] =
     [Render treeStyle (if l then glyph_last else glyph_tee), Plain '' '']"
| "treePrefix (l # rest) =
     [Render treeStyle (if l then ''  '' else glyph_bar), Plain '' ''] @ treePrefix rest"

text \<open>
  The judgement on the local copy \<open>n\<close> of the node: the style, whether the call is
  pending, and the copy after the expiration branch has written to it.
\<close>

definition judge :: "time \<Rightarrow> node \<Rightarrow> Style \<times> bool \<times> node" where
  "judge now n =
     (if done' n then
        (if status n = STATUS_OK then okStyle else errorStyle, False, n)
      else if \<not> IsZero (expirationTime n) \<and> Before (expirationTime n) now then
        (errorStyle, False,
         n\<lparr>error := Some ''Expired'', done' := True, doneTime := expirationTime n\<rparr>)
      else
        (if failures n > 0 then retryStyle else pendingStyle, True, n))"

text \<open>The row that \<open>buildRows\<close> adds for one node, and the local copy it recurses on.\<close>

definition buildRows_row :: "TUI \<Rightarrow> time \<Rightarrow> node \<Rightarrow> bool list \<Rightarrow> node \<times> row" where
  "buildRows_row t now n0 isLast =
     (case judge now n0 of (style, pending, n) \<Rightarrow>
        (let fname =
               treePrefix isLast @
               [Render style (if function' n \<noteq> [] then function' n else ''(?)'')];
             stat =
               (if running n then Render pendingStyle ''Running''
                else if error n \<noteq> None then Render style (the (error n))
                else if status n \<noteq> STATUS_UNSPECIFIED then Render style (statusString (status n))
                else if pending \<and> responses n > 0 then Render pendingStyle ''Suspended''
                else Render style ''Pending'');
             spin = (if pending then [Render spinnerStyle (spinner t)] else []);
             attempts =
               (if running n then go_int (failures n + 1)
                else if done' n \<and> status n = STATUS_OK then go_int (failures n + 1)
                else if responses n > failures n then go_int (failures n + 1)
                else failures n);
             attempts = max attempts 1;
             elapsed =
               (if \<not> IsZero (creationTime n) then
                  Truncate (Sub (if \<not> done' n then now else doneTime n) (creationTime n))
                    Millisecond
                else 0)
         in (n, \<lparr> row_spinner = spin, row_attempts = attempts, row_elapsed = elapsed,
                  row_function = fname, row_status = [stat] \<rparr>)))"

text \<open>
  \<open>buildRows\<close> recurses through the child lists of the store, which may be cyclic; the
  first argument bounds the depth of the recursion, and \<open>None\<close> is a walk that exceeds
  it. The state is the store together with the row buffer.
\<close>

fun buildRows ::
    "nat \<Rightarrow> time \<Rightarrow> DispatchID \<Rightarrow> bool list \<Rightarrow> TUI \<times> row list \<Rightarrow> (TUI \<times> row list) option"
  and buildRows_children ::
    "nat \<Rightarrow> time \<Rightarrow> DispatchID list \<Rightarrow> bool list \<Rightarrow> TUI \<times> row list \<Rightarrow>
     (TUI \<times> row list) option" where
  "buildRows 0 now i isLast s = None"
| "buildRows (Suc k) now i isLast s =
     (case s of (t, rows) \<Rightarrow>
        (case buildRows_row t now (nodes_get t i) isLast of (n, r) \<Rightarrow>
           buildRows_children k now (orderedChildren n) isLast (t, rows @ [r])))"
| "buildRows_children k now [] isLast s = Some s"
| "buildRows_children k now (c # cs) isLast s =
     (case buildRows k now c (isLast @ [cs = []]) s of
        None \<Rightarrow> None
      | Some s' \<Rightarrow> buildRows_children k now cs isLast s')"

text \<open>
  The functions view: the waiting screen while no root is registered, otherwise one block
  of rows per root in registration order. The layout of a block into fixed-width columns
  is a function of its rows alone and is not modelled.
\<close>

datatype view = Waiting | Tables "row list list"

fun functionCallsView_loop ::
  "nat \<Rightarrow> time \<Rightarrow> DispatchID list \<Rightarrow> TUI \<times> row list list \<Rightarrow> (TUI \<times> row list list) option" where
  "functionCallsView_loop k now [] s = Some s"
| "functionCallsView_loop k now (rootID # rest) s =
     (case s of (t, b) \<Rightarrow>
        (case buildRows k now rootID [] (t, []) of
           None \<Rightarrow> None
         | Some (t', rows) \<Rightarrow> functionCallsView_loop k now rest (t', b @ [rows])))"

definition functionCallsView :: "nat \<Rightarrow> time \<Rightarrow> TUI \<Rightarrow> (TUI \<times> view) option" where
  "functionCallsView k now t =
     (if (case roots t of None \<Rightarrow> True | Some r \<Rightarrow> r = {}) then Some (t, Waiting)
      else (case functionCallsView_loop k now (orderedRoots t) (t, []) of
              None \<Rightarrow> None
            | Some (t', b) \<Rightarrow> Some (t', Tables b)))"

subsection \<open>Well-formed registries\<close>

text \<open>
  The members of a node's child set (empty for a nil map), and the consistency of an
  ordered list with the set that guards it: the list has no duplicates and holds exactly
  the members of the set. These predicates state properties; the code does not compute
  them.
\<close>

definition childSet :: "node \<Rightarrow> DispatchID set" where
  "childSet n = (case children n of None \<Rightarrow> {} | Some c \<Rightarrow> c)"

definition children_wf :: "node \<Rightarrow> bool" where
  "children_wf n = (distinct (orderedChildren n) \<and> childSet n = set (orderedChildren n))"

definition roots_wf :: "TUI \<Rightarrow> bool" where
  "roots_wf t =
     (distinct (orderedRoots t) \<and>
      (case roots t of None \<Rightarrow> {} | Some r \<Rightarrow> r) = set (orderedRoots t))"

section \<open>Properties\<close>

text \<open>Within the range of a 64-bit \<open>int\<close> nothing wraps.\<close>

lemma go_int_id: "- (2 ^ 63) \<le> x \<Longrightarrow> x < 2 ^ 63 \<Longrightarrow> go_int x = x"
  by (simp add: go_int_def)

text \<open>The equations used to evaluate the model on concrete inputs.\<close>

lemmas eval_defs =
  nodes_get_def nodes_lookup_def node_zero_def TUI_zero_def parseID_def IsZero_def Before_def
  minDuration_def maxDuration_def Sub_def Millisecond_def go_rem_def go_quot_def Truncate_def
  go_int_id
  terminalHTTPStatusCode_def StatusRequestTimeout_def StatusTooManyRequests_def
  StatusNotImplemented_def upsertRoot_def upsertNode_node_def upsertNode_def linkChild_def
  upsertParent_def ObserveRequest_def Errorf_type_def ObserveResponse_exit_def
  ObserveResponse_node_def ObserveResponse_def judge_def buildRows_row_def
  functionCallsView_def Let_def

subsection \<open>Status classification\<close>

lemma go_quot_100: "0 < k \<Longrightarrow> (go_quot c 100 = k) = (100 * k \<le> c \<and> c < 100 * k + 100)"
  unfolding go_quot_def by (cases "c < 0") auto

text \<open>
  Claim C3. The classification is total and follows the fixed tables. For every outcome
  code, \<open>terminalStatus\<close> is false exactly for timeout, throttled, temporary error,
  incompatible (stale) state, DNS error, TCP error, TLS error and HTTP error, and true for
  every other code, unrecognised ones included. For every transport status code,
  \<open>terminalHTTPStatusCode\<close> is true on 4xx except 408 and 429, false on 5xx except
  501, and true on any other code.
\<close>

theorem terminal_classification:
  "terminalStatus s =
     (s \<notin> {STATUS_TIMEOUT, STATUS_THROTTLED, STATUS_TEMPORARY_ERROR, STATUS_INCOMPATIBLE_STATE,
             STATUS_DNS_ERROR, STATUS_TCP_ERROR, STATUS_TLS_ERROR, STATUS_HTTP_ERROR}) \<and>
   terminalHTTPStatusCode c =
     (if 400 \<le> c \<and> c \<le> 499 then c \<noteq> 408 \<and> c \<noteq> 429
      else if 500 \<le> c \<and> c \<le> 599 then c = 501
      else True)"
proof
  show "terminalStatus s =
     (s \<notin> {STATUS_TIMEOUT, STATUS_THROTTLED, STATUS_TEMPORARY_ERROR, STATUS_INCOMPATIBLE_STATE,
             STATUS_DNS_ERROR, STATUS_TCP_ERROR, STATUS_TLS_ERROR, STATUS_HTTP_ERROR})"
    by (cases s) simp_all
next
  have q4: "(go_quot c 100 = 4) = (400 \<le> c \<and> c \<le> 499)"
    using go_quot_100 [of 4 c] by auto
  have q5: "(go_quot c 100 = 5) = (500 \<le> c \<and> c \<le> 599)"
    using go_quot_100 [of 5 c] by auto
  show "terminalHTTPStatusCode c =
     (if 400 \<le> c \<and> c \<le> 499 then c \<noteq> 408 \<and> c \<noteq> 429
      else if 500 \<le> c \<and> c \<le> 599 then c = 501
      else True)"
    unfolding terminalHTTPStatusCode_def q4 q5
      StatusRequestTimeout_def StatusTooManyRequests_def StatusNotImplemented_def
    by simp
qed

theorem terminal_classification_witness:
  "terminalStatus STATUS_OK \<and> \<not> terminalStatus STATUS_TIMEOUT \<and>
   terminalStatus (Status_other 99) \<and>
   terminalHTTPStatusCode 200 \<and> \<not> terminalHTTPStatusCode 408 \<and>
   \<not> terminalHTTPStatusCode 429 \<and> terminalHTTPStatusCode 404 \<and>
   \<not> terminalHTTPStatusCode 500 \<and> terminalHTTPStatusCode 501 \<and>
   \<not> terminalHTTPStatusCode 503"
  using terminal_classification [of STATUS_OK 200]
    terminal_classification [of STATUS_TIMEOUT 408]
    terminal_classification [of "Status_other 99" 429]
    terminal_classification [of STATUS_OK 404]
    terminal_classification [of STATUS_OK 500]
    terminal_classification [of STATUS_OK 501]
    terminal_classification [of STATUS_OK 503]
  by simp

subsection \<open>The row builder\<close>

text \<open>
  A walk that returns leaves the store as it was and only appends to the row buffer; the
  first row it appends is the row of the node it was called on.
\<close>

lemma buildRows_children_frame:
  assumes step: "\<And>i isLast s s'. buildRows k now i isLast s = Some s' \<Longrightarrow>
            fst s' = fst s \<and> (\<exists>more. snd s' = snd s @ more)"
  shows "buildRows_children k now cs isLast s = Some s' \<Longrightarrow>
           fst s' = fst s \<and> (\<exists>more. snd s' = snd s @ more)"
proof (induction cs arbitrary: s)
  case Nil
  then show ?case by simp
next
  case (Cons c cs)
  from Cons.prems obtain s1 where
    a: "buildRows k now c (isLast @ [cs = []]) s = Some s1" and
    b: "buildRows_children k now cs isLast s1 = Some s'"
    by (auto split: option.splits)
  from step [OF a] Cons.IH [OF b] show ?case by auto
qed

lemma buildRows_frame:
  "buildRows k now i isLast s = Some s' \<Longrightarrow>
     fst s' = fst s \<and> (\<exists>more. snd s' = snd s @ more)"
proof (induction k arbitrary: i isLast s s')
  case 0
  then show ?case by simp
next
  case (Suc k)
  obtain t rows where s: "s = (t, rows)" by (cases s)
  obtain n r where nr: "buildRows_row t now (nodes_get t i) isLast = (n, r)"
    by (cases "buildRows_row t now (nodes_get t i) isLast")
  from Suc.prems have
    "buildRows_children k now (orderedChildren n) isLast (t, rows @ [r]) = Some s'"
    by (simp add: s nr)
  then have "fst s' = fst (t, rows @ [r]) \<and> (\<exists>more. snd s' = snd (t, rows @ [r]) @ more)"
    by (rule buildRows_children_frame [rotated]) (rule Suc.IH)
  then show ?case
    by (auto simp: s)
qed

lemma buildRows_own_row:
  assumes "buildRows k now i isLast (t, rows) = Some (t', rows')"
  shows "length rows < length rows' \<and>
         rows' ! length rows = snd (buildRows_row t now (nodes_get t i) isLast)"
proof (cases k)
  case 0
  with assms show ?thesis by simp
next
  case (Suc j)
  obtain n r where nr: "buildRows_row t now (nodes_get t i) isLast = (n, r)"
    by (cases "buildRows_row t now (nodes_get t i) isLast")
  from assms have
    "buildRows_children j now (orderedChildren n) isLast (t, rows @ [r]) = Some (t', rows')"
    by (simp add: Suc nr)
  then have "fst (t', rows') = fst (t, rows @ [r]) \<and>
      (\<exists>more. snd (t', rows') = snd (t, rows @ [r]) @ more)"
    by (rule buildRows_children_frame [rotated]) (rule buildRows_frame)
  then obtain more where "rows' = (rows @ [r]) @ more" by auto
  then show ?thesis by (simp add: nr nth_append)
qed

text \<open>
  Claim C4, as stated, fails: the three increments are the branches of one if/else-if
  chain, so at most one of them is added. A node that is running and done with outcome
  success gets one increment, not two. Below, call \<open>A\<close> is requested, answered with
  success and an Exit directive, and requested again; its node then is running, done and
  of outcome success with zero failures, the sum of the claim is 2, and the row shows
  attempts 1.
\<close>

theorem attempts_count_counterexample:
  "ObserveRequest 5 (TUI_zero ''*'')
     \<lparr>RootDispatchId = ''A'', ParentDispatchId = [], DispatchId = ''A'', Function = ''f'',
      CreationTime = None, ExpirationTime = None\<rparr> =
   Inr \<lparr>roots = Some {''A''}, orderedRoots = [''A''],
        nodes = Some [''A'' \<mapsto> node_zero\<lparr>function' := ''f'', running := True,
                        creationTime := 5\<rparr>],
        spinner = ''*''\<rparr> \<and>
   ObserveResponse 7
     \<lparr>roots = Some {''A''}, orderedRoots = [''A''],
      nodes = Some [''A'' \<mapsto> node_zero\<lparr>function' := ''f'', running := True,
                      creationTime := 5\<rparr>],
      spinner = ''*''\<rparr>
     \<lparr>RootDispatchId = ''A'', ParentDispatchId = [], DispatchId = ''A'', Function = ''f'',
      CreationTime = None, ExpirationTime = None\<rparr> None None
     (Some \<lparr>Status = STATUS_OK,
            Directive = RunResponse_Exit \<lparr>Result = None, TailCall = None\<rparr>\<rparr>) =
   Inr \<lparr>roots = Some {''A''}, orderedRoots = [''A''],
        nodes = Some [''A'' \<mapsto> node_zero\<lparr>function' := ''f'', responses := 1,
                        status := STATUS_OK, done' := True, creationTime := 5,
                        doneTime := 7\<rparr>],
        spinner = ''*''\<rparr> \<and>
   ObserveRequest 8
     \<lparr>roots = Some {''A''}, orderedRoots = [''A''],
      nodes = Some [''A'' \<mapsto> node_zero\<lparr>function' := ''f'', responses := 1,
                      status := STATUS_OK, done' := True, creationTime := 5,
                      doneTime := 7\<rparr>],
      spinner = ''*''\<rparr>
     \<lparr>RootDispatchId = ''A'', ParentDispatchId = [], DispatchId = ''A'', Function = ''f'',
      CreationTime = None, ExpirationTime = None\<rparr> =
   Inr \<lparr>roots = Some {''A''}, orderedRoots = [''A''],
        nodes = Some [''A'' \<mapsto> node_zero\<lparr>function' := ''f'', responses := 1,
                        status := STATUS_OK, running := True, done' := True,
                        creationTime := 5, doneTime := 7\<rparr>],
        spinner = ''*''\<rparr> \<and>
   map_option snd (buildRows (Suc 0) 9 ''A'' []
     (\<lparr>roots = Some {''A''}, orderedRoots = [''A''],
       nodes = Some [''A'' \<mapsto> node_zero\<lparr>function' := ''f'', responses := 1,
                       status := STATUS_OK, running := True, done' := True,
                       creationTime := 5, doneTime := 7\<rparr>],
       spinner = ''*''\<rparr>, [])) =
   Some [\<lparr>row_spinner = [], row_attempts = 1, row_elapsed = 0,
          row_function = [Render okStyle ''f''],
          row_status = [Render pendingStyle ''Running'']\<rparr>] \<and>
   failures (node_zero\<lparr>function' := ''f'', responses := 1, status := STATUS_OK,
               running := True, done' := True, creationTime := 5, doneTime := 7\<rparr>) +
   (if running (node_zero\<lparr>function' := ''f'', responses := 1, status := STATUS_OK,
                  running := True, done' := True, creationTime := 5, doneTime := 7\<rparr>)
    then 1 else 0) +
   (if done' (node_zero\<lparr>function' := ''f'', responses := 1, status := STATUS_OK,
                running := True, done' := True, creationTime := 5, doneTime := 7\<rparr>) \<and>
       status (node_zero\<lparr>function' := ''f'', responses := 1, status := STATUS_OK,
                running := True, done' := True, creationTime := 5, doneTime := 7\<rparr>) =
       STATUS_OK
    then 1 else 0) = 2"
  by (simp add: eval_defs)

text \<open>
  Claim C4, amended. For every node that is rendered, the attempts count of its row is its
  \<open>failures\<close>, plus one if the node is running, otherwise plus one if it is done with
  outcome success (done as judged at render time, which includes local expiration),
  otherwise plus one if it has more responses than failures; at most one increment
  applies. The increment is the addition of a 64-bit Go \<open>int\<close>, which is the exact sum
  whenever \<open>failures\<close> is below the largest value of that type. The result is clamped to
  a minimum of 1. In particular a node with zero failures, not running and without
  responses renders with attempts 1.
\<close>

theorem attempts_count:
  assumes "buildRows k now i isLast (t, rows) = Some (t', rows')"
    and "n = nodes_get t i"
    and "done_now = (done' n \<or> (\<not> IsZero (expirationTime n) \<and> Before (expirationTime n) now))"
  shows "row_attempts (rows' ! length rows) =
           max 1 (if running n then go_int (failures n + 1)
                  else if done_now \<and> status n = STATUS_OK then go_int (failures n + 1)
                  else if responses n > failures n then go_int (failures n + 1)
                  else failures n) \<and>
         (- (2 ^ 63) \<le> failures n \<and> failures n < 2 ^ 63 - 1 \<longrightarrow>
            row_attempts (rows' ! length rows) =
              max 1 (failures n +
                (if running n then 1
                 else if done_now \<and> status n = STATUS_OK then 1
                 else if responses n > failures n then 1
                 else 0))) \<and>
         (failures n = 0 \<and> \<not> running n \<and> responses n = 0 \<longrightarrow>
            row_attempts (rows' ! length rows) = 1)"
proof -
  have r: "rows' ! length rows = snd (buildRows_row t now n isLast)"
    using buildRows_own_row [OF assms(1)] assms(2) by simp
  have a: "row_attempts (snd (buildRows_row t now n isLast)) =
           max 1 (if running n then go_int (failures n + 1)
                  else if done_now \<and> status n = STATUS_OK then go_int (failures n + 1)
                  else if responses n > failures n then go_int (failures n + 1)
                  else failures n)"
    unfolding assms(3) by (auto simp add: buildRows_row_def judge_def Let_def max_def)
  have b: "go_int (failures n + 1) = failures n + 1"
    if "- (2 ^ 63) \<le> failures n \<and> failures n < 2 ^ 63 - 1"
    using that by (intro go_int_id) simp_all
  have c: "row_attempts (snd (buildRows_row t now n isLast)) = 1"
    if "failures n = 0 \<and> \<not> running n \<and> responses n = 0"
    unfolding a using that by (simp add: go_int_def)
  show ?thesis
    unfolding r using a b c by simp
qed

theorem attempts_count_witness:
  "buildRows (Suc 0) 10 ''A'' []
     (\<lparr>roots = Some {''A''}, orderedRoots = [''A''],
       nodes = Some [''A'' \<mapsto> node_zero\<lparr>failures := 2, responses := 3\<rparr>],
       spinner = ''*''\<rparr>, []) \<noteq> None \<and>
   row_attempts (snd (the (buildRows (Suc 0) 10 ''A'' []
     (\<lparr>roots = Some {''A''}, orderedRoots = [''A''],
       nodes = Some [''A'' \<mapsto> node_zero\<lparr>failures := 2, responses := 3\<rparr>],
       spinner = ''*''\<rparr>, []))) ! 0) = 3 \<and>
   row_attempts (snd (the (buildRows (Suc 0) 10 ''A'' []
     (\<lparr>roots = Some {''A''}, orderedRoots = [''A''],
       nodes = Some [''A'' \<mapsto> node_zero],
       spinner = ''*''\<rparr>, []))) ! 0) = 1 \<and>
   row_attempts (snd (the (buildRows (Suc 0) 10 ''A'' []
     (\<lparr>roots = Some {''A''}, orderedRoots = [''A''],
       nodes = Some [''A'' \<mapsto> node_zero\<lparr>failures := 9223372036854775807, running := True\<rparr>],
       spinner = ''*''\<rparr>, []))) ! 0) = 1"
proof -
  let ?t = "\<lparr>roots = Some {''A''}, orderedRoots = [''A''],
       nodes = Some [''A'' \<mapsto> node_zero\<lparr>failures := 2, responses := 3\<rparr>],
       spinner = ''*''\<rparr>"
  let ?u = "\<lparr>roots = Some {''A''}, orderedRoots = [''A''],
       nodes = Some [''A'' \<mapsto> node_zero], spinner = ''*''\<rparr>"
  let ?w = "\<lparr>roots = Some {''A''}, orderedRoots = [''A''],
       nodes = Some [''A'' \<mapsto> node_zero\<lparr>failures := 9223372036854775807, running := True\<rparr>],
       spinner = ''*''\<rparr>"
  obtain s where s: "buildRows (Suc 0) 10 ''A'' [] (?t, []) = Some s"
    by (simp add: eval_defs)
  obtain s' where s': "buildRows (Suc 0) 10 ''A'' [] (?u, []) = Some s'"
    by (simp add: eval_defs)
  have g: "go_int 9223372036854775808 = - 9223372036854775808"
    by (simp add: go_int_def)
  obtain s'' where s'': "buildRows (Suc 0) 10 ''A'' [] (?w, []) = Some s''"
    by (simp add: eval_defs)
  have a: "row_attempts (snd s ! 0) = 3"
    using attempts_count [of "Suc 0" 10 "''A''" "[]" ?t "[]" "fst s" "snd s", OF _ refl refl] s
    by (simp add: eval_defs)
  have b: "row_attempts (snd s' ! 0) = 1"
    using attempts_count [of "Suc 0" 10 "''A''" "[]" ?u "[]" "fst s'" "snd s'", OF _ refl refl] s'
    by (simp add: eval_defs)
  have c: "row_attempts (snd s'' ! 0) = 1"
    using attempts_count [of "Suc 0" 10 "''A''" "[]" ?w "[]" "fst s''" "snd s''", OF _ refl refl] s''
    by (simp add: eval_defs g)
  from a b c s s' s'' show ?thesis by simp
qed

subsection \<open>The functions view\<close>

lemma functionCallsView_loop_frame:
  "functionCallsView_loop k now rs s = Some s' \<Longrightarrow> fst s' = fst s"
proof (induction rs arbitrary: s)
  case Nil
  then show ?case by simp
next
  case (Cons r rs)
  obtain t b where s: "s = (t, b)" by (cases s)
  from Cons.prems obtain t1 rows where
    a: "buildRows k now r [] (t, []) = Some (t1, rows)" and
    b: "functionCallsView_loop k now rs (t1, b @ [rows]) = Some s'"
    by (auto simp: s split: option.splits)
  from buildRows_frame [OF a] Cons.IH [OF b] show ?case by (simp add: s)
qed

text \<open>
  Claim C9. Rendering is read-only on the store: for every store and every render instant,
  a walk of \<open>buildRows\<close> and the whole functions view return the store they were given,
  with every node, the root registry and every child list unchanged. The judgement of
  local expiration writes \<open>error\<close>, \<open>done\<close> and \<open>doneTime\<close> to the local copy of the
  node only.
\<close>

theorem render_read_only:
  "(functionCallsView k now t = Some (t', v) \<longrightarrow> t' = t) \<and>
   (buildRows k now i isLast (t, rows) = Some (t'', rows') \<longrightarrow> t'' = t)"
proof (intro conjI impI)
  assume a: "functionCallsView k now t = Some (t', v)"
  show "t' = t"
  proof (cases "case roots t of None \<Rightarrow> True | Some r \<Rightarrow> r = {}")
    case True
    with a show ?thesis by (simp add: functionCallsView_def)
  next
    case False
    with a obtain b where "functionCallsView_loop k now (orderedRoots t) (t, []) = Some (t', b)"
      by (auto simp: functionCallsView_def split: option.splits)
    from functionCallsView_loop_frame [OF this] show ?thesis by simp
  qed
next
  assume "buildRows k now i isLast (t, rows) = Some (t'', rows')"
  from buildRows_frame [OF this] show "t'' = t" by simp
qed

theorem render_read_only_witness:
  "functionCallsView (Suc 0) 10
     \<lparr>roots = Some {''A''}, orderedRoots = [''A''],
      nodes = Some [''A'' \<mapsto> node_zero\<lparr>function' := ''f'', creationTime := 1, expirationTime := 5\<rparr>],
      spinner = ''*''\<rparr> =
   Some (\<lparr>roots = Some {''A''}, orderedRoots = [''A''],
      nodes = Some [''A'' \<mapsto> node_zero\<lparr>function' := ''f'', creationTime := 1, expirationTime := 5\<rparr>],
      spinner = ''*''\<rparr>,
     Tables [[\<lparr>row_spinner = [], row_attempts = 1, row_elapsed = 0,
               row_function = [Render errorStyle ''f''],
               row_status = [Render errorStyle ''Expired'']\<rparr>]]) \<and>
   buildRows (Suc 0) 10 ''A'' []
     (\<lparr>roots = Some {''A''}, orderedRoots = [''A''],
      nodes = Some [''A'' \<mapsto> node_zero\<lparr>function' := ''f'', creationTime := 1, expirationTime := 5\<rparr>],
      spinner = ''*''\<rparr>, []) =
   Some (\<lparr>roots = Some {''A''}, orderedRoots = [''A''],
      nodes = Some [''A'' \<mapsto> node_zero\<lparr>function' := ''f'', creationTime := 1, expirationTime := 5\<rparr>],
      spinner = ''*''\<rparr>,
     [\<lparr>row_spinner = [], row_attempts = 1, row_elapsed = 0,
               row_function = [Render errorStyle ''f''],
               row_status = [Render errorStyle ''Expired'']\<rparr>])"
proof -
  let ?t = "\<lparr>roots = Some {''A''}, orderedRoots = [''A''],
      nodes = Some [''A'' \<mapsto> node_zero\<lparr>function' := ''f'', creationTime := 1, expirationTime := 5\<rparr>],
      spinner = ''*''\<rparr>"
  let ?r = "\<lparr>row_spinner = [], row_attempts = 1, row_elapsed = 0,
               row_function = [Render errorStyle ''f''],
               row_status = [Render errorStyle ''Expired'']\<rparr>"
  obtain t' v where r: "functionCallsView (Suc 0) 10 ?t = Some (t', v)"
    by (simp add: eval_defs)
  have v: "v = Tables [[?r]]"
    using r by (simp add: eval_defs)
  obtain t'' rows where b: "buildRows (Suc 0) 10 ''A'' [] (?t, []) = Some (t'', rows)"
    by (simp add: eval_defs)
  have rows: "rows = [?r]"
    using b by (simp add: eval_defs)
  from render_read_only [of "Suc 0" 10 ?t t' v "''A''" "[]" "[]" t'' rows] r b
  have "t' = ?t" and "t'' = ?t" by simp_all
  with r v b rows show ?thesis by simp
qed


subsection \<open>Local expiration\<close>

text \<open>
  Claim C5, as stated, fails: a node whose request has been observed and that has no
  response yet is running, and the status column of a running node reads \<open>Running\<close> in
  the pending style whatever the expiration says; the elapsed time is truncated to whole
  milliseconds. Below, the request carries creation time 1 ms and expiration time 3.5 ms
  and the row is built at 10 ms.
\<close>

theorem expired_row_counterexample:
  "ObserveRequest 5 (TUI_zero ''*'')
     \<lparr>RootDispatchId = ''A'', ParentDispatchId = [], DispatchId = ''A'', Function = ''f'',
      CreationTime = Some 1000000, ExpirationTime = Some 3500000\<rparr> =
   Inr \<lparr>roots = Some {''A''}, orderedRoots = [''A''],
        nodes = Some [''A'' \<mapsto> node_zero\<lparr>function' := ''f'', running := True,
                        creationTime := 1000000, expirationTime := 3500000\<rparr>],
        spinner = ''*''\<rparr> \<and>
   map_option snd (buildRows (Suc 0) 10000000 ''A'' []
     (\<lparr>roots = Some {''A''}, orderedRoots = [''A''],
       nodes = Some [''A'' \<mapsto> node_zero\<lparr>function' := ''f'', running := True,
                        creationTime := 1000000, expirationTime := 3500000\<rparr>],
       spinner = ''*''\<rparr>, [])) =
   Some [\<lparr>row_spinner = [], row_attempts = 1, row_elapsed = 2000000,
          row_function = [Render errorStyle ''f''],
          row_status = [Render pendingStyle ''Running'']\<rparr>]"
  by (simp add: eval_defs)

text \<open>
  Claim C5, amended. For every rendered node that is not done and whose expiration time is
  set and earlier than the render instant: the function name has the failure style and the
  row has no spinner; the status is \<open>Expired\<close> in the failure style when the node is not
  running, and \<open>Running\<close> in the pending style when it is; the elapsed time is the
  expiration time minus the creation time, as a duration (saturated at the bounds of that
  type) truncated to whole milliseconds, and zero when the creation time is unset.
\<close>

theorem expired_row:
  assumes "buildRows k now i isLast (t, rows) = Some (t', rows')"
    and "n = nodes_get t i"
    and "\<not> done' n"
    and "\<not> IsZero (expirationTime n)"
    and "Before (expirationTime n) now"
  shows "row_function (rows' ! length rows) =
           treePrefix isLast @
           [Render errorStyle (if function' n \<noteq> [] then function' n else ''(?)'')] \<and>
         row_spinner (rows' ! length rows) = [] \<and>
         row_status (rows' ! length rows) =
           [if running n then Render pendingStyle ''Running''
            else Render errorStyle ''Expired''] \<and>
         row_elapsed (rows' ! length rows) =
           (if IsZero (creationTime n) then 0
            else Truncate (Sub (expirationTime n) (creationTime n)) Millisecond)"
proof -
  have "rows' ! length rows = snd (buildRows_row t now n isLast)"
    using buildRows_own_row [OF assms(1)] assms(2) by simp
  then show ?thesis
    using assms(3-5) by (simp add: buildRows_row_def judge_def Let_def)
qed

theorem expired_row_witness:
  "map_option snd (buildRows (Suc 0) 10000000 ''A'' []
     (\<lparr>roots = Some {''A''}, orderedRoots = [''A''],
       nodes = Some [''A'' \<mapsto> node_zero\<lparr>function' := ''f'', failures := 1, responses := 1,
                        creationTime := 1000000, expirationTime := 3500000\<rparr>],
       spinner = ''*''\<rparr>, [])) =
   Some [\<lparr>row_spinner = [], row_attempts = 1, row_elapsed = 2000000,
          row_function = [Render errorStyle ''f''],
          row_status = [Render errorStyle ''Expired'']\<rparr>]"
proof -
  let ?n = "node_zero\<lparr>function' := ''f'', failures := 1, responses := 1,
                        creationTime := 1000000, expirationTime := 3500000\<rparr>"
  let ?t = "\<lparr>roots = Some {''A''}, orderedRoots = [''A''],
       nodes = Some [''A'' \<mapsto> ?n], spinner = ''*''\<rparr>"
  obtain t' rows' where b: "buildRows (Suc 0) 10000000 ''A'' [] (?t, []) = Some (t', rows')"
    by (simp add: eval_defs)
  have l: "length rows' = 1" and a: "row_attempts (rows' ! 0) = 1"
    using b by (auto simp add: eval_defs)
  have n: "?n = nodes_get ?t ''A''" by (simp add: eval_defs)
  have h: "\<not> done' ?n" "\<not> IsZero (expirationTime ?n)" "Before (expirationTime ?n) 10000000"
    by (simp_all add: eval_defs)
  from expired_row [OF b n h]
  have "rows' ! 0 = \<lparr>row_spinner = [], row_attempts = 1, row_elapsed = 2000000,
          row_function = [Render errorStyle ''f''],
          row_status = [Render errorStyle ''Expired'']\<rparr>"
    using a by (cases "rows' ! 0") (simp add: eval_defs)
  with l have "rows' = [\<lparr>row_spinner = [], row_attempts = 1, row_elapsed = 2000000,
          row_function = [Render errorStyle ''f''],
          row_status = [Render errorStyle ''Expired'']\<rparr>]"
    by (cases rows') simp_all
  with b show ?thesis by simp
qed

subsection \<open>The store after a request\<close>

lemma nodes_get_lookup:
  "nodes_get t k = (case nodes_lookup t k of None \<Rightarrow> node_zero | Some n \<Rightarrow> n)"
  by (simp add: nodes_get_def nodes_lookup_def split: option.splits)

lemma upsertParent_Inl:
  "(upsertParent r p i ns = Inl x) =
     (x = Panic ''not implemented'' \<and> p \<noteq> [] \<and> p \<noteq> r \<and> ns p = None)"
  by (auto simp add: upsertParent_def split: option.splits)

lemma upsertParent_Inr:
  "upsertParent r p i ns = Inr ns' \<Longrightarrow>
     ns' = (if p = [] then ns
            else ns(p \<mapsto> linkChild i (case ns p of None \<Rightarrow> node_zero | Some n \<Rightarrow> n)))"
  by (auto simp add: upsertParent_def split: option.splits if_splits)

lemma ObserveRequest_unfold:
  "ObserveRequest now t req =
     (case upsertParent (RootDispatchId req) (ParentDispatchId req) (DispatchId req)
         (upsertNode now req (DispatchId req)
           ((case nodes t of None \<Rightarrow> Map.empty | Some m \<Rightarrow> m)
              (RootDispatchId req \<mapsto> nodes_get t (RootDispatchId req)))) of
        Inl x \<Rightarrow> Inl x
      | Inr ns3 \<Rightarrow>
          Inr (t\<lparr>roots := Some (insert (RootDispatchId req)
                                 (case roots t of None \<Rightarrow> {} | Some r \<Rightarrow> r)),
                 orderedRoots :=
                   (if RootDispatchId req \<in> (case roots t of None \<Rightarrow> {} | Some r \<Rightarrow> r)
                    then orderedRoots t else orderedRoots t @ [RootDispatchId req]),
                 nodes := Some ns3\<rparr>))"
  by (auto simp add: ObserveRequest_def upsertRoot_def parseID_def nodes_get_def Let_def
      insert_absorb split: option.splits sum.splits)


lemma upsertNode_apply:
  "upsertNode now req i ns k =
     (if k = i then Some (upsertNode_node now req (case ns i of None \<Rightarrow> node_zero | Some n \<Rightarrow> n))
      else ns k)"
  by (simp add: upsertNode_def Let_def)

lemma ObserveRequest_panic:
  "(ObserveRequest now t req = Inl x) =
     (x = Panic ''not implemented'' \<and> ParentDispatchId req \<noteq> [] \<and>
      ParentDispatchId req \<noteq> RootDispatchId req \<and>
      ParentDispatchId req \<noteq> DispatchId req \<and>
      nodes_lookup t (ParentDispatchId req) = None)"
proof -
  have "(ObserveRequest now t req = Inl x) =
        (upsertParent (RootDispatchId req) (ParentDispatchId req) (DispatchId req)
         (upsertNode now req (DispatchId req)
           ((case nodes t of None \<Rightarrow> Map.empty | Some m \<Rightarrow> m)
              (RootDispatchId req \<mapsto> nodes_get t (RootDispatchId req)))) = Inl x)"
    unfolding ObserveRequest_unfold by (simp split: sum.splits)
  then show ?thesis
    unfolding upsertParent_Inl
    by (auto simp add: upsertNode_apply nodes_lookup_def split: option.splits)
qed

lemma ObserveRequest_Inr:
  assumes "ObserveRequest now t req = Inr t'"
  shows "t' = t\<lparr>roots := Some (insert (RootDispatchId req)
                                 (case roots t of None \<Rightarrow> {} | Some r \<Rightarrow> r)),
                 orderedRoots :=
                   (if RootDispatchId req \<in> (case roots t of None \<Rightarrow> {} | Some r \<Rightarrow> r)
                    then orderedRoots t else orderedRoots t @ [RootDispatchId req]),
                 nodes := nodes t'\<rparr>"
  using assms unfolding ObserveRequest_unfold by (auto split: sum.splits)

lemma ObserveRequest_lookup:
  assumes "ObserveRequest now t req = Inr t'"
  shows "nodes_lookup t' k =
     (if k = ParentDispatchId req \<and> ParentDispatchId req \<noteq> [] then
        Some (linkChild (DispatchId req)
                (if k = DispatchId req then upsertNode_node now req (nodes_get t k)
                 else nodes_get t k))
      else if k = DispatchId req then Some (upsertNode_node now req (nodes_get t k))
      else if k = RootDispatchId req then Some (nodes_get t k)
      else nodes_lookup t k)"
proof -
  define ns1 where "ns1 = (case nodes t of None \<Rightarrow> Map.empty | Some m \<Rightarrow> m)
              (RootDispatchId req \<mapsto> nodes_get t (RootDispatchId req))"
  define ns2 where "ns2 = upsertNode now req (DispatchId req) ns1"
  from assms obtain ns3 where
    up: "upsertParent (RootDispatchId req) (ParentDispatchId req) (DispatchId req) ns2 = Inr ns3"
    and t': "nodes t' = Some ns3"
    unfolding ObserveRequest_unfold ns2_def ns1_def by (auto split: sum.splits)
  have g1: "(case ns1 j of None \<Rightarrow> node_zero | Some n \<Rightarrow> n) = nodes_get t j" for j
    by (simp add: ns1_def nodes_get_def split: option.splits)
  have ns2: "ns2 j = (if j = DispatchId req then Some (upsertNode_node now req (nodes_get t j))
                        else if j = RootDispatchId req then Some (nodes_get t j)
                        else nodes_lookup t j)" for j
    unfolding ns2_def upsertNode_apply g1
    by (simp add: ns1_def nodes_lookup_def split: option.splits)
  have g2: "(case ns2 j of None \<Rightarrow> node_zero | Some n \<Rightarrow> n) =
            (if j = DispatchId req then upsertNode_node now req (nodes_get t j) else nodes_get t j)" for j
    unfolding ns2 by (simp add: nodes_get_lookup)
  have "nodes_lookup t' k = ns3 k" by (simp add: nodes_lookup_def t')
  also have "\<dots> = (if ParentDispatchId req = [] then ns2 k
        else (ns2(ParentDispatchId req \<mapsto> linkChild (DispatchId req)
               (case ns2 (ParentDispatchId req) of None \<Rightarrow> node_zero | Some n \<Rightarrow> n))) k)"
    using upsertParent_Inr [OF up] by simp
  finally show ?thesis
    unfolding g2 by (simp add: ns2)
qed

lemma ObserveRequest_get:
  assumes "ObserveRequest now t req = Inr t'"
  shows "nodes_get t' k =
     (if k = ParentDispatchId req \<and> ParentDispatchId req \<noteq> [] then
        linkChild (DispatchId req)
                (if k = DispatchId req then upsertNode_node now req (nodes_get t k)
                 else nodes_get t k)
      else if k = DispatchId req then upsertNode_node now req (nodes_get t k)
      else nodes_get t k)"
  unfolding nodes_get_lookup [of t'] ObserveRequest_lookup [OF assms]
  by (simp add: nodes_get_lookup)


lemma linkChild_node_zero:
  "linkChild i node_zero = node_zero\<lparr>children := Some {i}, orderedChildren := [i]\<rparr>"
  by (simp add: linkChild_def node_zero_def)

text \<open>
  Claim C7, as stated, fails: the parent is looked up after the node of the request itself
  has been stored, so a request that names its own, so far unknown, id as parent finds a
  parent and does not panic although the parent is neither in the store nor the root.
\<close>

theorem missing_parent_counterexample:
  "nodes_lookup (TUI_zero ''*'') ''B'' = None \<and>
   ObserveRequest 5 (TUI_zero ''*'')
     \<lparr>RootDispatchId = ''A'', ParentDispatchId = ''B'', DispatchId = ''B'', Function = ''f'',
      CreationTime = None, ExpirationTime = None\<rparr> =
   Inr \<lparr>roots = Some {''A''}, orderedRoots = [''A''],
        nodes = Some [''A'' \<mapsto> node_zero,
                      ''B'' \<mapsto> node_zero\<lparr>function' := ''f'', running := True, creationTime := 5,
                                children := Some {''B''}, orderedChildren := [''B'']\<rparr>],
        spinner = ''*''\<rparr>"
  by (simp add: eval_defs)

text \<open>
  Claim C7, amended. For every request whose parent id is non-empty and names a node not
  present in the store: the operation panics exactly when the parent id differs from the
  root id and from the id of the request itself. When it does not panic, the parent is
  either the root, which then is an empty placeholder that has the call as its only child,
  or the node of the request itself, linked as its own child; no other parent is
  constructed.
\<close>

theorem missing_parent:
  assumes "ParentDispatchId req \<noteq> []"
    and "nodes_lookup t (ParentDispatchId req) = None"
  shows "(ObserveRequest now t req = Inl (Panic ''not implemented'')) =
           (ParentDispatchId req \<noteq> RootDispatchId req \<and>
            ParentDispatchId req \<noteq> DispatchId req) \<and>
         (\<forall>t'. ObserveRequest now t req = Inr t' \<longrightarrow>
            (ParentDispatchId req = RootDispatchId req \<or>
             ParentDispatchId req = DispatchId req) \<and>
            nodes_lookup t' (ParentDispatchId req) =
              Some (if ParentDispatchId req = DispatchId req
                    then (upsertNode_node now req node_zero)
                           \<lparr>children := Some {DispatchId req},
                            orderedChildren := [DispatchId req]\<rparr>
                    else node_zero\<lparr>children := Some {DispatchId req},
                                   orderedChildren := [DispatchId req]\<rparr>))"
proof (intro conjI allI impI)
  show "(ObserveRequest now t req = Inl (Panic ''not implemented'')) =
           (ParentDispatchId req \<noteq> RootDispatchId req \<and>
            ParentDispatchId req \<noteq> DispatchId req)"
    unfolding ObserveRequest_panic using assms by simp
next
  fix t' assume r: "ObserveRequest now t req = Inr t'"
  have "ObserveRequest now t req \<noteq> Inl (Panic ''not implemented'')"
    using r by simp
  then show "ParentDispatchId req = RootDispatchId req \<or>
             ParentDispatchId req = DispatchId req"
    unfolding ObserveRequest_panic using assms by auto
next
  fix t' assume r: "ObserveRequest now t req = Inr t'"
  have z: "nodes_get t (ParentDispatchId req) = node_zero"
    using assms(2) by (simp add: nodes_get_lookup)
  have l: "linkChild i (upsertNode_node now req node_zero) =
        (upsertNode_node now req node_zero)\<lparr>children := Some {i}, orderedChildren := [i]\<rparr>" for i
    by (simp add: linkChild_def upsertNode_node_def node_zero_def Let_def split: option.splits)
  show "nodes_lookup t' (ParentDispatchId req) =
              Some (if ParentDispatchId req = DispatchId req
                    then (upsertNode_node now req node_zero)
                           \<lparr>children := Some {DispatchId req},
                            orderedChildren := [DispatchId req]\<rparr>
                    else node_zero\<lparr>children := Some {DispatchId req},
                                   orderedChildren := [DispatchId req]\<rparr>)"
    unfolding ObserveRequest_lookup [OF r] z using assms(1)
    by (simp add: l linkChild_node_zero)
qed

theorem missing_parent_witness:
  "ObserveRequest 5 (TUI_zero ''*'')
     \<lparr>RootDispatchId = ''A'', ParentDispatchId = ''C'', DispatchId = ''B'', Function = ''f'',
      CreationTime = None, ExpirationTime = None\<rparr> = Inl (Panic ''not implemented'') \<and>
   ObserveRequest 5 (TUI_zero ''*'')
     \<lparr>RootDispatchId = ''A'', ParentDispatchId = ''A'', DispatchId = ''B'', Function = ''f'',
      CreationTime = None, ExpirationTime = None\<rparr> =
   Inr \<lparr>roots = Some {''A''}, orderedRoots = [''A''],
        nodes = Some [''B'' \<mapsto> node_zero\<lparr>function' := ''f'', running := True, creationTime := 5\<rparr>,
                      ''A'' \<mapsto> node_zero\<lparr>children := Some {''B''}, orderedChildren := [''B'']\<rparr>],
        spinner = ''*''\<rparr> \<and>
   nodes_lookup \<lparr>roots = Some {''A''}, orderedRoots = [''A''],
        nodes = Some [''B'' \<mapsto> node_zero\<lparr>function' := ''f'', running := True, creationTime := 5\<rparr>,
                      ''A'' \<mapsto> node_zero\<lparr>children := Some {''B''}, orderedChildren := [''B'']\<rparr>],
        spinner = ''*''\<rparr> ''A'' =
   Some (node_zero\<lparr>children := Some {''B''}, orderedChildren := [''B'']\<rparr>)"
proof -
  let ?r1 = "\<lparr>RootDispatchId = ''A'', ParentDispatchId = ''C'', DispatchId = ''B'', Function = ''f'',
      CreationTime = None, ExpirationTime = None\<rparr>"
  let ?r2 = "\<lparr>RootDispatchId = ''A'', ParentDispatchId = ''A'', DispatchId = ''B'', Function = ''f'',
      CreationTime = None, ExpirationTime = None\<rparr>"
  let ?t2 = "\<lparr>roots = Some {''A''}, orderedRoots = [''A''],
        nodes = Some [''B'' \<mapsto> node_zero\<lparr>function' := ''f'', running := True, creationTime := 5\<rparr>,
                      ''A'' \<mapsto> node_zero\<lparr>children := Some {''B''}, orderedChildren := [''B'']\<rparr>],
        spinner = ''*''\<rparr>"
  have a: "ObserveRequest 5 (TUI_zero ''*'') ?r1 = Inl (Panic ''not implemented'')"
    using missing_parent [of ?r1 "TUI_zero ''*''" 5]
    by (simp add: nodes_lookup_def TUI_zero_def)
  have b: "ObserveRequest 5 (TUI_zero ''*'') ?r2 = Inr ?t2"
    by (simp add: eval_defs fun_upd_twist)
  have c: "nodes_lookup ?t2 ''A'' =
     Some (node_zero\<lparr>children := Some {''B''}, orderedChildren := [''B'']\<rparr>)"
    using missing_parent [of ?r2 "TUI_zero ''*''" 5] b
    by (simp add: nodes_lookup_def TUI_zero_def)
  from a b c show ?thesis by simp
qed

subsection \<open>Re-observing a request for a known call\<close>

lemma upsertNode_node_fields:
  "failures (upsertNode_node now req n) = failures n"
  "responses (upsertNode_node now req n) = responses n"
  "status (upsertNode_node now req n) = status n"
  "error (upsertNode_node now req n) = error n"
  "done' (upsertNode_node now req n) = done' n"
  "doneTime (upsertNode_node now req n) = doneTime n"
  "children (upsertNode_node now req n) = children n"
  "orderedChildren (upsertNode_node now req n) = orderedChildren n"
  "function' (upsertNode_node now req n) = Function req"
  "running (upsertNode_node now req n) = True"
  "expirationTime (upsertNode_node now req n) =
     (case ExpirationTime req of None \<Rightarrow> expirationTime n | Some e \<Rightarrow> e)"
  "creationTime (upsertNode_node now req n) =
     (if (case CreationTime req of None \<Rightarrow> creationTime n | Some c \<Rightarrow> c) = 0 then now
      else (case CreationTime req of None \<Rightarrow> creationTime n | Some c \<Rightarrow> c))"
  by (simp_all add: upsertNode_node_def IsZero_def Let_def split: option.splits)

lemma linkChild_fields:
  "failures (linkChild i n) = failures n"
  "responses (linkChild i n) = responses n"
  "status (linkChild i n) = status n"
  "error (linkChild i n) = error n"
  "done' (linkChild i n) = done' n"
  "doneTime (linkChild i n) = doneTime n"
  "function' (linkChild i n) = function' n"
  "running (linkChild i n) = running n"
  "expirationTime (linkChild i n) = expirationTime n"
  "creationTime (linkChild i n) = creationTime n"
  "children (linkChild i n) = Some (insert i (case children n of None \<Rightarrow> {} | Some c \<Rightarrow> c))"
  "orderedChildren (linkChild i n) =
     (if i \<in> (case children n of None \<Rightarrow> {} | Some c \<Rightarrow> c) then orderedChildren n
      else orderedChildren n @ [i])"
  by (auto simp add: linkChild_def Let_def insert_absorb)

text \<open>
  Claim C10, as stated, fails on the child list: a request that names the call itself as
  its parent appends the call to its own child list. Below, call \<open>B\<close> is known as a child
  of root \<open>A\<close> and has no children; a second request for \<open>B\<close> names \<open>B\<close> as parent.
\<close>

theorem reobserve_counterexample:
  "orderedChildren (nodes_get
     \<lparr>roots = Some {''A''}, orderedRoots = [''A''],
      nodes = Some [''B'' \<mapsto> node_zero\<lparr>function' := ''f'', running := True, creationTime := 5\<rparr>,
                    ''A'' \<mapsto> node_zero\<lparr>children := Some {''B''}, orderedChildren := [''B'']\<rparr>],
      spinner = ''*''\<rparr> ''B'') = [] \<and>
   map_sum (\<lambda>p. p) (\<lambda>t. orderedChildren (nodes_get t ''B''))
     (ObserveRequest 6
       \<lparr>roots = Some {''A''}, orderedRoots = [''A''],
        nodes = Some [''B'' \<mapsto> node_zero\<lparr>function' := ''f'', running := True, creationTime := 5\<rparr>,
                      ''A'' \<mapsto> node_zero\<lparr>children := Some {''B''}, orderedChildren := [''B'']\<rparr>],
        spinner = ''*''\<rparr>
       \<lparr>RootDispatchId = ''A'', ParentDispatchId = ''B'', DispatchId = ''B'', Function = ''f'',
        CreationTime = None, ExpirationTime = None\<rparr>) = Inr [''B'']"
  by (simp add: eval_defs)

text \<open>
  Claim C10, amended. For every node present in the store, a request for its id that does
  not panic keeps the node in the store with its failures, responses, outcome code, error,
  done flag and done time unchanged. It sets the function name to the one of the request
  and \<open>running\<close> to true; the creation time becomes the one the request carries, if any,
  and then the clock reading if it is still the zero time; the expiration time becomes the
  one the request carries, if any. The child set and the child list are unchanged unless
  the request names the node itself as its parent, in which case the node's own id is
  appended to its child list if it is not yet a child.
\<close>

theorem reobserve:
  assumes "ObserveRequest now t req = Inr t'"
    and "nodes_lookup t (DispatchId req) = Some n"
    and "n' = nodes_get t' (DispatchId req)"
  shows "nodes_lookup t' (DispatchId req) = Some n' \<and>
         failures n' = failures n \<and> responses n' = responses n \<and> status n' = status n \<and>
         error n' = error n \<and> done' n' = done' n \<and> doneTime n' = doneTime n \<and>
         function' n' = Function req \<and> running n' \<and>
         creationTime n' =
           (if (case CreationTime req of None \<Rightarrow> creationTime n | Some c \<Rightarrow> c) = 0 then now
            else (case CreationTime req of None \<Rightarrow> creationTime n | Some c \<Rightarrow> c)) \<and>
         expirationTime n' =
           (case ExpirationTime req of None \<Rightarrow> expirationTime n | Some e \<Rightarrow> e) \<and>
         (if ParentDispatchId req = DispatchId req \<and> ParentDispatchId req \<noteq> [] then
            orderedChildren n' =
              (if DispatchId req \<in> (case children n of None \<Rightarrow> {} | Some c \<Rightarrow> c)
               then orderedChildren n else orderedChildren n @ [DispatchId req])
          else children n' = children n \<and> orderedChildren n' = orderedChildren n)"
proof -
  have g: "nodes_get t (DispatchId req) = n"
    using assms(2) by (simp add: nodes_get_lookup)
  have l: "nodes_lookup t' (DispatchId req) = Some n'"
    unfolding assms(3) nodes_get_lookup [of t'] ObserveRequest_lookup [OF assms(1)] by simp
  have n': "n' = (if ParentDispatchId req = DispatchId req \<and> ParentDispatchId req \<noteq> []
                  then linkChild (DispatchId req) (upsertNode_node now req n)
                  else upsertNode_node now req n)"
    unfolding assms(3) ObserveRequest_get [OF assms(1)] g by simp
  show ?thesis
  proof (cases "ParentDispatchId req = DispatchId req \<and> ParentDispatchId req \<noteq> []")
    case True
    then have "n' = linkChild (DispatchId req) (upsertNode_node now req n)"
      using n' by auto
    with True l show ?thesis
      by (auto simp add: upsertNode_node_fields linkChild_fields)
  next
    case False
    then have "n' = upsertNode_node now req n"
      using n' by auto
    with False l show ?thesis
      by (auto simp add: upsertNode_node_fields)
  qed
qed

theorem reobserve_witness:
  "map_sum (\<lambda>p. p) (\<lambda>t. nodes_lookup t ''A'')
     (ObserveRequest 60
       \<lparr>roots = Some {''A''}, orderedRoots = [''A''],
        nodes = Some [''A'' \<mapsto> node_zero\<lparr>function' := ''f'', failures := 1, responses := 1,
                        status := STATUS_TIMEOUT, creationTime := 5\<rparr>],
        spinner = ''*''\<rparr>
       \<lparr>RootDispatchId = ''A'', ParentDispatchId = [], DispatchId = ''A'', Function = ''g'',
        CreationTime = None, ExpirationTime = Some 100\<rparr>) =
   Inr (Some (node_zero\<lparr>function' := ''g'', failures := 1, responses := 1,
                        status := STATUS_TIMEOUT, running := True, creationTime := 5,
                        expirationTime := 100\<rparr>))"
proof -
  let ?n = "node_zero\<lparr>function' := ''f'', failures := 1, responses := 1,
                        status := STATUS_TIMEOUT, creationTime := 5\<rparr>"
  let ?t = "\<lparr>roots = Some {''A''}, orderedRoots = [''A''],
        nodes = Some [''A'' \<mapsto> ?n], spinner = ''*''\<rparr>"
  let ?req = "\<lparr>RootDispatchId = ''A'', ParentDispatchId = [], DispatchId = ''A'', Function = ''g'',
        CreationTime = None, ExpirationTime = Some 100\<rparr>"
  obtain t' where r: "ObserveRequest 60 ?t ?req = Inr t'"
    using ObserveRequest_panic [of 60 ?t ?req] by (cases "ObserveRequest 60 ?t ?req") auto
  have n: "nodes_lookup ?t (DispatchId ?req) = Some ?n"
    by (simp add: nodes_lookup_def)
  from reobserve [OF r n refl]
  have "nodes_lookup t' ''A'' = Some (nodes_get t' ''A'')"
    and "nodes_get t' ''A'' = node_zero\<lparr>function' := ''g'', failures := 1, responses := 1,
                        status := STATUS_TIMEOUT, running := True, creationTime := 5,
                        expirationTime := 100\<rparr>"
    by (simp_all add: node_zero_def node.equality)
  then show ?thesis by (simp add: r)
qed

subsection \<open>The store after a response\<close>

lemma ObserveResponse_store:
  "ObserveResponse now t req err httpRes res =
     (case nodes t of
        None \<Rightarrow> Inl (Panic ''assignment to entry in nil map'')
      | Some m \<Rightarrow>
          Inr (t\<lparr>nodes := Some (m(DispatchId req \<mapsto>
                 ObserveResponse_node now err httpRes res (nodes_get t (DispatchId req))))\<rparr>))"
  by (simp add: ObserveResponse_def parseID_def Let_def)

lemma ObserveResponse_get:
  assumes "ObserveResponse now t req err httpRes res = Inr t'"
  shows "nodes_get t' k =
     (if k = DispatchId req then ObserveResponse_node now err httpRes res (nodes_get t k)
      else nodes_get t k)"
  using assms unfolding ObserveResponse_store
  by (auto simp add: nodes_get_def split: option.splits)

text \<open>
  Claim C8 does not hold of the code in the state it names last. In the zero value of the
  store the node map is nil; \<open>ObserveResponse\<close> reads it, which yields the zero node, and
  then writes to it, which panics. \<open>ObserveRequest\<close> creates the map before use,
  \<open>ObserveResponse\<close> does not. Whatever the request and the response are, the first
  event being a response ends in the panic.
\<close>

theorem ObserveResponse_before_any_request:
  "ObserveResponse now (TUI_zero sp) req err httpRes res =
     Inl (Panic ''assignment to entry in nil map'')"
  by (simp add: ObserveResponse_store TUI_zero_def)

text \<open>
  Once the node map exists, a response for an id never seen is processed on the zero node
  and stored.
\<close>

lemma ObserveResponse_unseen:
  assumes "nodes t = Some m" and "m (DispatchId req) = None"
  shows "ObserveResponse now t req err httpRes res =
           Inr (t\<lparr>nodes := Some (m(DispatchId req \<mapsto>
                  ObserveResponse_node now err httpRes res node_zero))\<rparr>)"
  using assms by (simp add: ObserveResponse_store nodes_get_def)


lemma ObserveResponse_lookup:
  assumes "ObserveResponse now t req err httpRes res = Inr t'"
  shows "nodes_lookup t' k =
     (if k = DispatchId req then Some (ObserveResponse_node now err httpRes res (nodes_get t k))
      else nodes_lookup t k)"
  using assms unfolding ObserveResponse_store
  by (auto simp add: nodes_lookup_def split: option.splits)

lemma ObserveResponse_node_done:
  assumes d: "done' n"
  shows "done' (ObserveResponse_node now err httpRes res n) =
     (case res of
        Some r \<Rightarrow>
          (case Directive r of
             RunResponse_Exit ex \<Rightarrow> TailCall ex = None \<and> terminalStatus (Status r)
           | _ \<Rightarrow> Status r \<noteq> STATUS_INCOMPATIBLE_STATE)
      | None \<Rightarrow> (case httpRes of Some c \<Rightarrow> terminalHTTPStatusCode c | None \<Rightarrow> True))"
proof (cases res)
  case None
  with d show ?thesis
    by (simp add: ObserveResponse_node_def Let_def split: option.splits)
next
  case (Some r)
  show ?thesis
  proof (cases "Directive r")
    case Directive_nil
    with Some d show ?thesis
      by (cases "Status r") (simp_all add: ObserveResponse_node_def Let_def node_zero_def)
  next
    case RunResponse_Poll
    with Some d show ?thesis
      by (cases "Status r") (simp_all add: ObserveResponse_node_def Let_def node_zero_def)
  next
    case (RunResponse_Exit ex)
    have e: "done' (ObserveResponse_exit r ex a) = (TailCall ex = None \<and> terminalStatus (Status r))" for a
      by (simp add: ObserveResponse_exit_def Let_def node_zero_def split: option.splits)
    have "ObserveResponse_node now err httpRes res n =
        (let a = ObserveResponse_exit r ex
           (case Status r of
              STATUS_OK \<Rightarrow> n\<lparr>responses := responses n + 1, error := None,
                  status := STATUS_UNSPECIFIED, running := False\<rparr>
            | STATUS_INCOMPATIBLE_STATE \<Rightarrow> node_zero\<lparr>function' := function' n\<rparr>
            | _ \<Rightarrow> n\<lparr>responses := responses n + 1, error := None,
                  status := STATUS_UNSPECIFIED, running := False, failures := failures n + 1\<rparr>)
         in if done' a \<and> IsZero (doneTime a) then a\<lparr>doneTime := now\<rparr> else a)"
      using Some RunResponse_Exit
      by (cases "Status r") (simp_all add: ObserveResponse_node_def Let_def)
    then show ?thesis
      using Some RunResponse_Exit by (simp add: Let_def e)
  qed
qed


text \<open>
  Claim C1, as stated, fails: \<open>ObserveResponse\<close> assigns \<open>done\<close> from the classification
  of the response at hand, so a response with an Exit directive and a non-terminal outcome
  code, or a transport failure with a non-terminal status code, clears the flag of a node
  that was done, without resetting the node. Below, call \<open>A\<close> is requested, answered
  with success (which sets \<open>done\<close>), and then answered with a timeout or with HTTP
  status 503.
\<close>

theorem done_monotonic_counterexample:
  "ObserveRequest 5 (TUI_zero ''*'')
     \<lparr>RootDispatchId = ''A'', ParentDispatchId = [], DispatchId = ''A'', Function = ''f'',
      CreationTime = None, ExpirationTime = None\<rparr> =
   Inr \<lparr>roots = Some {''A''}, orderedRoots = [''A''],
        nodes = Some [''A'' \<mapsto> node_zero\<lparr>function' := ''f'', running := True,
                        creationTime := 5\<rparr>],
        spinner = ''*''\<rparr> \<and>
   ObserveResponse 7
     \<lparr>roots = Some {''A''}, orderedRoots = [''A''],
      nodes = Some [''A'' \<mapsto> node_zero\<lparr>function' := ''f'', running := True,
                      creationTime := 5\<rparr>],
      spinner = ''*''\<rparr>
     \<lparr>RootDispatchId = ''A'', ParentDispatchId = [], DispatchId = ''A'', Function = ''f'',
      CreationTime = None, ExpirationTime = None\<rparr> None None
     (Some \<lparr>Status = STATUS_OK,
            Directive = RunResponse_Exit \<lparr>Result = None, TailCall = None\<rparr>\<rparr>) =
   Inr \<lparr>roots = Some {''A''}, orderedRoots = [''A''],
        nodes = Some [''A'' \<mapsto> node_zero\<lparr>function' := ''f'', responses := 1,
                        status := STATUS_OK, done' := True, creationTime := 5,
                        doneTime := 7\<rparr>],
        spinner = ''*''\<rparr> \<and>
   ObserveResponse 9
     \<lparr>roots = Some {''A''}, orderedRoots = [''A''],
      nodes = Some [''A'' \<mapsto> node_zero\<lparr>function' := ''f'', responses := 1,
                      status := STATUS_OK, done' := True, creationTime := 5,
                      doneTime := 7\<rparr>],
      spinner = ''*''\<rparr>
     \<lparr>RootDispatchId = ''A'', ParentDispatchId = [], DispatchId = ''A'', Function = ''f'',
      CreationTime = None, ExpirationTime = None\<rparr> None None
     (Some \<lparr>Status = STATUS_TIMEOUT,
            Directive = RunResponse_Exit \<lparr>Result = None, TailCall = None\<rparr>\<rparr>) =
   Inr \<lparr>roots = Some {''A''}, orderedRoots = [''A''],
        nodes = Some [''A'' \<mapsto> node_zero\<lparr>function' := ''f'', failures := 1, responses := 2,
                        status := STATUS_TIMEOUT, done' := False, creationTime := 5,
                        doneTime := 7\<rparr>],
        spinner = ''*''\<rparr> \<and>
   map_sum (\<lambda>p. p)
     (\<lambda>t. (done' (nodes_get t ''A''), failures (nodes_get t ''A''), responses (nodes_get t ''A'')))
     (ObserveResponse 9
       \<lparr>roots = Some {''A''}, orderedRoots = [''A''],
        nodes = Some [''A'' \<mapsto> node_zero\<lparr>function' := ''f'', responses := 1,
                        status := STATUS_OK, done' := True, creationTime := 5,
                        doneTime := 7\<rparr>],
        spinner = ''*''\<rparr>
       \<lparr>RootDispatchId = ''A'', ParentDispatchId = [], DispatchId = ''A'', Function = ''f'',
        CreationTime = None, ExpirationTime = None\<rparr> None (Some 503) None) =
   Inr (False, 1, 2)"
  by (simp add: eval_defs)

text \<open>
  Claim C1, amended. For every node in the store whose done flag is true: no
  \<open>ObserveRequest\<close> clears it, and no \<open>ObserveResponse\<close> for another id clears it. An
  \<open>ObserveResponse\<close> for the node's own id succeeds and leaves the flag true exactly
  when the response is an application response with an Exit directive that has no tail
  call and a terminal outcome code, or an application response without Exit directive
  whose outcome is not the stale-state code, or a transport failure with a terminal status
  code, or a bare error or empty response. So besides the stale-state and tail-call resets,
  an Exit directive with a non-terminal outcome code and a transport failure with a
  non-terminal status code turn the flag back to false.
\<close>

theorem done_after_event:
  assumes "nodes_lookup t k = Some n" and "done' n"
  shows "(\<forall>t'. ObserveRequest now t req = Inr t' \<longrightarrow>
            nodes_lookup t' k \<noteq> None \<and> done' (nodes_get t' k)) \<and>
         (\<exists>t'. ObserveResponse now t req err httpRes res = Inr t' \<and>
            nodes_lookup t' k \<noteq> None \<and>
            done' (nodes_get t' k) =
              (k \<noteq> DispatchId req \<or>
               (case res of
                  Some r \<Rightarrow>
                    (case Directive r of
                       RunResponse_Exit ex \<Rightarrow> TailCall ex = None \<and> terminalStatus (Status r)
                     | _ \<Rightarrow> Status r \<noteq> STATUS_INCOMPATIBLE_STATE)
                | None \<Rightarrow>
                    (case httpRes of Some c \<Rightarrow> terminalHTTPStatusCode c | None \<Rightarrow> True))))"
proof (intro conjI allI impI)
  fix t' assume r: "ObserveRequest now t req = Inr t'"
  have g: "nodes_get t k = n"
    using assms(1) by (simp add: nodes_get_lookup)
  show "nodes_lookup t' k \<noteq> None"
    unfolding ObserveRequest_lookup [OF r] using assms(1) by simp
  show "done' (nodes_get t' k)"
    unfolding ObserveRequest_get [OF r] g using assms(2)
    by (simp add: linkChild_fields upsertNode_node_fields)
next
  from assms(1) obtain m where m: "nodes t = Some m"
    by (auto simp add: nodes_lookup_def split: option.splits)
  then obtain t' where r: "ObserveResponse now t req err httpRes res = Inr t'"
    by (simp add: ObserveResponse_store)
  have g: "nodes_get t k = n"
    using assms(1) by (simp add: nodes_get_lookup)
  have a: "nodes_lookup t' k \<noteq> None"
    unfolding ObserveResponse_lookup [OF r] using assms(1) by simp
  have b: "done' (nodes_get t' k) =
              (k \<noteq> DispatchId req \<or>
               (case res of
                  Some r \<Rightarrow>
                    (case Directive r of
                       RunResponse_Exit ex \<Rightarrow> TailCall ex = None \<and> terminalStatus (Status r)
                     | _ \<Rightarrow> Status r \<noteq> STATUS_INCOMPATIBLE_STATE)
                | None \<Rightarrow>
                    (case httpRes of Some c \<Rightarrow> terminalHTTPStatusCode c | None \<Rightarrow> True)))"
  proof (cases "k = DispatchId req")
    case True
    then show ?thesis
      unfolding ObserveResponse_get [OF r] g
      using ObserveResponse_node_done [OF assms(2), of now err httpRes res] by simp
  next
    case False
    then show ?thesis
      unfolding ObserveResponse_get [OF r] g using assms(2) by simp
  qed
  from r a b show "\<exists>t'. ObserveResponse now t req err httpRes res = Inr t' \<and>
            nodes_lookup t' k \<noteq> None \<and>
            done' (nodes_get t' k) =
              (k \<noteq> DispatchId req \<or>
               (case res of
                  Some r \<Rightarrow>
                    (case Directive r of
                       RunResponse_Exit ex \<Rightarrow> TailCall ex = None \<and> terminalStatus (Status r)
                     | _ \<Rightarrow> Status r \<noteq> STATUS_INCOMPATIBLE_STATE)
                | None \<Rightarrow>
                    (case httpRes of Some c \<Rightarrow> terminalHTTPStatusCode c | None \<Rightarrow> True)))"
    by blast
qed


theorem done_after_event_witness:
  "map_sum (\<lambda>p. p) (\<lambda>t. done' (nodes_get t ''A''))
     (ObserveRequest 8
       \<lparr>roots = Some {''A''}, orderedRoots = [''A''],
        nodes = Some [''A'' \<mapsto> node_zero\<lparr>function' := ''f'', responses := 1,
                        status := STATUS_OK, done' := True, creationTime := 5,
                        doneTime := 7\<rparr>],
        spinner = ''*''\<rparr>
       \<lparr>RootDispatchId = ''A'', ParentDispatchId = [], DispatchId = ''A'', Function = ''f'',
        CreationTime = None, ExpirationTime = None\<rparr>) = Inr True \<and>
   map_sum (\<lambda>p. p) (\<lambda>t. done' (nodes_get t ''A''))
     (ObserveResponse 9
       \<lparr>roots = Some {''A''}, orderedRoots = [''A''],
        nodes = Some [''A'' \<mapsto> node_zero\<lparr>function' := ''f'', responses := 1,
                        status := STATUS_OK, done' := True, creationTime := 5,
                        doneTime := 7\<rparr>],
        spinner = ''*''\<rparr>
       \<lparr>RootDispatchId = ''A'', ParentDispatchId = [], DispatchId = ''A'', Function = ''f'',
        CreationTime = None, ExpirationTime = None\<rparr> (Some ''connection refused'') None None) =
   Inr True"
proof -
  let ?n = "node_zero\<lparr>function' := ''f'', responses := 1,
                        status := STATUS_OK, done' := True, creationTime := 5,
                        doneTime := 7\<rparr>"
  let ?t = "\<lparr>roots = Some {''A''}, orderedRoots = [''A''],
        nodes = Some [''A'' \<mapsto> ?n], spinner = ''*''\<rparr>"
  let ?req = "\<lparr>RootDispatchId = ''A'', ParentDispatchId = [], DispatchId = ''A'', Function = ''f'',
        CreationTime = None, ExpirationTime = None\<rparr>"
  have l: "nodes_lookup ?t ''A'' = Some ?n" by (simp add: nodes_lookup_def)
  have d: "done' ?n" by simp
  note th = done_after_event [OF l d, of 8 ?req "Some ''connection refused''" None None]
  obtain t' where r: "ObserveRequest 8 ?t ?req = Inr t'"
    using ObserveRequest_panic [of 8 ?t ?req] by (cases "ObserveRequest 8 ?t ?req") auto
  from th r have a: "done' (nodes_get t' ''A'')" by blast
  from done_after_event [OF l d, of 9 ?req "Some ''connection refused''" None None]
  obtain t2 where r2: "ObserveResponse 9 ?t ?req (Some ''connection refused'') None None = Inr t2"
    and b: "done' (nodes_get t2 ''A'')" by auto
  from r a r2 b show ?thesis by simp
qed


subsection \<open>Resets\<close>

lemma ObserveResponse_node_tailcall:
  assumes "Directive r = RunResponse_Exit ex" and "TailCall ex = Some c"
  shows "ObserveResponse_node now err httpRes (Some r) n =
           node_zero\<lparr>function' := Call_Function c\<rparr>"
proof -
  have e: "ObserveResponse_exit r ex a = node_zero\<lparr>function' := Call_Function c\<rparr>" for a
    using assms(2) by (simp add: ObserveResponse_exit_def Let_def)
  show ?thesis
    using assms(1)
    by (cases "Status r") (simp_all add: ObserveResponse_node_def Let_def e node_zero_def)
qed

lemma ObserveResponse_node_stale:
  assumes "Status r = STATUS_INCOMPATIBLE_STATE"
    and "\<forall>ex. Directive r = RunResponse_Exit ex \<longrightarrow> TailCall ex = None"
  shows "ObserveResponse_node now err httpRes (Some r) n =
           node_zero
             \<lparr>function' := function' n,
              status := (case Directive r of
                           RunResponse_Exit ex \<Rightarrow> STATUS_INCOMPATIBLE_STATE
                         | _ \<Rightarrow> STATUS_UNSPECIFIED),
              error := (case Directive r of
                          RunResponse_Exit ex \<Rightarrow>
                            (case Result ex of
                               None \<Rightarrow> None
                             | Some cr \<Rightarrow>
                                 (case Error cr of
                                    None \<Rightarrow> None
                                  | Some e \<Rightarrow> if Type e \<noteq> [] then Some (Errorf_type e) else None))
                        | _ \<Rightarrow> None)\<rparr>"
proof (cases "Directive r")
  case Directive_nil
  with assms(1) show ?thesis
    by (simp add: ObserveResponse_node_def Let_def node_zero_def)
next
  case RunResponse_Poll
  with assms(1) show ?thesis
    by (simp add: ObserveResponse_node_def Let_def node_zero_def)
next
  case (RunResponse_Exit ex)
  with assms(2) have tc: "TailCall ex = None" by simp
  show ?thesis
    using assms(1) RunResponse_Exit tc
    by (simp add: ObserveResponse_node_def ObserveResponse_exit_def Let_def node_zero_def
        split: option.splits)
qed

text \<open>
  Claim C2, as stated, fails in its first half: a response whose outcome is the stale-state
  code and whose Exit directive names a tail call replaces the node by a fresh node of the
  tail call's function, so the function name is not retained. Below, the node of function
  \<open>f\<close> receives such a response with tail call \<open>g\<close>.
\<close>

theorem reset_counterexample:
  "ObserveResponse 9
     \<lparr>roots = Some {''A''}, orderedRoots = [''A''],
      nodes = Some [''A'' \<mapsto> node_zero\<lparr>function' := ''f'', failures := 2, responses := 2,
                      running := True, creationTime := 5\<rparr>],
      spinner = ''*''\<rparr>
     \<lparr>RootDispatchId = ''A'', ParentDispatchId = [], DispatchId = ''A'', Function = ''f'',
      CreationTime = None, ExpirationTime = None\<rparr> None None
     (Some \<lparr>Status = STATUS_INCOMPATIBLE_STATE,
            Directive = RunResponse_Exit
              \<lparr>Result = None, TailCall = Some \<lparr>Call_Function = ''g''\<rparr>\<rparr>\<rparr>) =
   Inr \<lparr>roots = Some {''A''}, orderedRoots = [''A''],
        nodes = Some [''A'' \<mapsto> node_zero\<lparr>function' := ''g''\<rparr>],
        spinner = ''*''\<rparr>"
  by (simp add: eval_defs)

text \<open>
  Claim C2, amended. For every node X in the store, a response for its id whose outcome is
  the stale-state code and which carries no tail call replaces X by a node that retains
  the function name of X and is otherwise fresh (failures 0, responses 0, no children, not
  done, not running, times unset), except that with an Exit directive it records the
  stale-state outcome code and the error of the Exit; its row, built right after, shows
  the unchanged function name in the pending style and attempts 1. And for every node X, a
  response for its id that carries an Exit directive with a tail call to function \<open>g\<close>
  replaces X by the fresh node of function \<open>g\<close>: not done, all counters zero.
\<close>

theorem reset_replacement:
  assumes "nodes t = Some m" and "m (DispatchId req) = Some X"
    and "stale = node_zero
             \<lparr>function' := function' X,
              status := (case Directive r of
                           RunResponse_Exit ex \<Rightarrow> STATUS_INCOMPATIBLE_STATE
                         | _ \<Rightarrow> STATUS_UNSPECIFIED),
              error := (case Directive r of
                          RunResponse_Exit ex \<Rightarrow>
                            (case Result ex of
                               None \<Rightarrow> None
                             | Some cr \<Rightarrow>
                                 (case Error cr of
                                    None \<Rightarrow> None
                                  | Some e \<Rightarrow> if Type e \<noteq> [] then Some (Errorf_type e) else None))
                        | _ \<Rightarrow> None)\<rparr>"
  shows "(Status r = STATUS_INCOMPATIBLE_STATE \<and>
          (\<forall>ex. Directive r = RunResponse_Exit ex \<longrightarrow> TailCall ex = None) \<longrightarrow>
            ObserveResponse now t req err httpRes (Some r) =
              Inr (t\<lparr>nodes := Some (m(DispatchId req \<mapsto> stale))\<rparr>) \<and>
            function' stale = function' X \<and> failures stale = 0 \<and> responses stale = 0 \<and>
            children stale = None \<and> orderedChildren stale = [] \<and> \<not> done' stale \<and>
            row_attempts (snd (buildRows_row t' now' stale isLast)) = 1 \<and>
            row_function (snd (buildRows_row t' now' stale isLast)) =
              treePrefix isLast @
              [Render pendingStyle (if function' X \<noteq> [] then function' X else ''(?)'')]) \<and>
         (\<forall>ex c. Directive r = RunResponse_Exit ex \<and> TailCall ex = Some c \<longrightarrow>
            ObserveResponse now t req err httpRes (Some r) =
              Inr (t\<lparr>nodes := Some (m(DispatchId req \<mapsto>
                     node_zero\<lparr>function' := Call_Function c\<rparr>))\<rparr>) \<and>
            function' (node_zero\<lparr>function' := Call_Function c\<rparr>) = Call_Function c \<and>
            \<not> done' (node_zero\<lparr>function' := Call_Function c\<rparr>) \<and>
            failures (node_zero\<lparr>function' := Call_Function c\<rparr>) = 0 \<and>
            responses (node_zero\<lparr>function' := Call_Function c\<rparr>) = 0)"
proof (intro conjI allI impI)
  assume a: "Status r = STATUS_INCOMPATIBLE_STATE \<and>
          (\<forall>ex. Directive r = RunResponse_Exit ex \<longrightarrow> TailCall ex = None)"
  have g: "nodes_get t (DispatchId req) = X"
    using assms(1,2) by (simp add: nodes_get_def)
  from a have st: "Status r = STATUS_INCOMPATIBLE_STATE"
    and nt: "\<forall>ex. Directive r = RunResponse_Exit ex \<longrightarrow> TailCall ex = None"
    by blast+
  have "ObserveResponse_node now err httpRes (Some r) X = stale"
    unfolding assms(3) by (rule ObserveResponse_node_stale [OF st nt])
  then show "ObserveResponse now t req err httpRes (Some r) =
              Inr (t\<lparr>nodes := Some (m(DispatchId req \<mapsto> stale))\<rparr>)"
    unfolding ObserveResponse_store using assms(1) by (simp add: g)
next
  fix ex c
  assume a: "Directive r = RunResponse_Exit ex \<and> TailCall ex = Some c"
  from a have d: "Directive r = RunResponse_Exit ex" and tc: "TailCall ex = Some c"
    by blast+
  have "ObserveResponse_node now err httpRes (Some r) (nodes_get t (DispatchId req)) =
          node_zero\<lparr>function' := Call_Function c\<rparr>"
    by (rule ObserveResponse_node_tailcall [OF d tc])
  then show "ObserveResponse now t req err httpRes (Some r) =
              Inr (t\<lparr>nodes := Some (m(DispatchId req \<mapsto>
                     node_zero\<lparr>function' := Call_Function c\<rparr>))\<rparr>)"
    unfolding ObserveResponse_store using assms(1) by simp
qed (simp_all add: assms(3) node_zero_def buildRows_row_def judge_def IsZero_def Let_def)


theorem reset_replacement_witness:
  "ObserveResponse 9
     \<lparr>roots = Some {''A''}, orderedRoots = [''A''],
      nodes = Some [''A'' \<mapsto> node_zero\<lparr>function' := ''f'', failures := 2, responses := 2,
                      running := True, creationTime := 5,
                      children := Some {''B''}, orderedChildren := [''B'']\<rparr>],
      spinner = ''*''\<rparr>
     \<lparr>RootDispatchId = ''A'', ParentDispatchId = [], DispatchId = ''A'', Function = ''f'',
      CreationTime = None, ExpirationTime = None\<rparr> None None
     (Some \<lparr>Status = STATUS_INCOMPATIBLE_STATE, Directive = RunResponse_Poll\<rparr>) =
   Inr \<lparr>roots = Some {''A''}, orderedRoots = [''A''],
        nodes = Some [''A'' \<mapsto> node_zero\<lparr>function' := ''f''\<rparr>],
        spinner = ''*''\<rparr> \<and>
   row_attempts (snd (buildRows_row (TUI_zero ''*'') 10 (node_zero\<lparr>function' := ''f''\<rparr>) [])) = 1 \<and>
   row_function (snd (buildRows_row (TUI_zero ''*'') 10 (node_zero\<lparr>function' := ''f''\<rparr>) [])) =
     [Render pendingStyle ''f''] \<and>
   ObserveResponse 9
     \<lparr>roots = Some {''A''}, orderedRoots = [''A''],
      nodes = Some [''A'' \<mapsto> node_zero\<lparr>function' := ''f'', failures := 2, responses := 2,
                      running := True, creationTime := 5,
                      children := Some {''B''}, orderedChildren := [''B'']\<rparr>],
      spinner = ''*''\<rparr>
     \<lparr>RootDispatchId = ''A'', ParentDispatchId = [], DispatchId = ''A'', Function = ''f'',
      CreationTime = None, ExpirationTime = None\<rparr> None None
     (Some \<lparr>Status = STATUS_OK,
            Directive = RunResponse_Exit
              \<lparr>Result = None, TailCall = Some \<lparr>Call_Function = ''g''\<rparr>\<rparr>\<rparr>) =
   Inr \<lparr>roots = Some {''A''}, orderedRoots = [''A''],
        nodes = Some [''A'' \<mapsto> node_zero\<lparr>function' := ''g''\<rparr>],
        spinner = ''*''\<rparr>"
proof -
  let ?X = "node_zero\<lparr>function' := ''f'', failures := 2, responses := 2,
                      running := True, creationTime := 5,
                      children := Some {''B''}, orderedChildren := [''B'']\<rparr>"
  let ?m = "[''A'' \<mapsto> ?X]"
  let ?t = "\<lparr>roots = Some {''A''}, orderedRoots = [''A''], nodes = Some ?m, spinner = ''*''\<rparr>"
  let ?req = "\<lparr>RootDispatchId = ''A'', ParentDispatchId = [], DispatchId = ''A'', Function = ''f'',
      CreationTime = None, ExpirationTime = None\<rparr>"
  let ?r1 = "\<lparr>Status = STATUS_INCOMPATIBLE_STATE, Directive = RunResponse_Poll\<rparr>"
  let ?r2 = "\<lparr>Status = STATUS_OK,
            Directive = RunResponse_Exit
              \<lparr>Result = None, TailCall = Some \<lparr>Call_Function = ''g''\<rparr>\<rparr>\<rparr>"
  have n: "nodes ?t = Some ?m" by simp
  have x: "?m (DispatchId ?req) = Some ?X" by simp
  have a: "ObserveResponse 9 ?t ?req None None (Some ?r1) =
             Inr (?t\<lparr>nodes := Some (?m(''A'' \<mapsto> node_zero\<lparr>function' := ''f''\<rparr>))\<rparr>) \<and>
           row_attempts (snd (buildRows_row (TUI_zero ''*'') 10 (node_zero\<lparr>function' := ''f''\<rparr>) [])) = 1 \<and>
           row_function (snd (buildRows_row (TUI_zero ''*'') 10 (node_zero\<lparr>function' := ''f''\<rparr>) [])) =
             [Render pendingStyle ''f'']"
  proof -
    have st: "node_zero\<lparr>function' := ''f''\<rparr> = node_zero
             \<lparr>function' := function' ?X,
              status := (case Directive ?r1 of
                           RunResponse_Exit ex \<Rightarrow> STATUS_INCOMPATIBLE_STATE
                         | _ \<Rightarrow> STATUS_UNSPECIFIED),
              error := (case Directive ?r1 of
                          RunResponse_Exit ex \<Rightarrow>
                            (case Result ex of
                               None \<Rightarrow> None
                             | Some cr \<Rightarrow>
                                 (case Error cr of
                                    None \<Rightarrow> None
                                  | Some e \<Rightarrow> if Type e \<noteq> [] then Some (Errorf_type e) else None))
                        | _ \<Rightarrow> None)\<rparr>"
      by (simp add: node_zero_def)
    from reset_replacement [where m = ?m and now = 9 and err = None and httpRes = None
        and t' = "TUI_zero ''*''" and now' = 10 and isLast = "[]", OF n x st]
    show ?thesis by simp
  qed
  have b: "ObserveResponse 9 ?t ?req None None (Some ?r2) =
             Inr (?t\<lparr>nodes := Some (?m(''A'' \<mapsto> node_zero\<lparr>function' := ''g''\<rparr>))\<rparr>)"
    using reset_replacement [where m = ?m and r = ?r2 and now = 9 and err = None
        and httpRes = None, OF n x refl]
    by simp
  from a b show ?thesis by simp
qed

subsection \<open>Registries under sequences of requests\<close>

lemma count_list_distinct:
  "distinct xs \<Longrightarrow> x \<in> set xs \<Longrightarrow> count_list xs x = 1"
  by (induction xs) (auto simp add: count_list_0_iff)

lemma children_wf_zero: "children_wf node_zero"
  by (simp add: children_wf_def childSet_def node_zero_def)

lemma children_wf_upsertNode_node:
  "children_wf (upsertNode_node now req n) = children_wf n"
  by (simp add: children_wf_def childSet_def upsertNode_node_fields)

lemma childSet_upsertNode_node:
  "childSet (upsertNode_node now req n) = childSet n"
  by (simp add: childSet_def upsertNode_node_fields)

lemma childSet_linkChild: "childSet (linkChild i n) = insert i (childSet n)"
  by (simp add: childSet_def linkChild_fields)

lemma orderedChildren_linkChild:
  "orderedChildren (linkChild i n) =
     (if i \<in> childSet n then orderedChildren n else orderedChildren n @ [i])"
  by (simp add: childSet_def linkChild_fields)

lemma children_wf_linkChild: "children_wf n \<Longrightarrow> children_wf (linkChild i n)"
  by (auto simp add: children_wf_def childSet_linkChild orderedChildren_linkChild)

lemma ObserveRequest_children_wf:
  assumes "ObserveRequest now t req = Inr t'" and "\<And>k. children_wf (nodes_get t k)"
  shows "children_wf (nodes_get t' k)"
  unfolding ObserveRequest_get [OF assms(1)]
  by (simp add: children_wf_linkChild children_wf_upsertNode_node assms(2))

lemma ObserveRequest_childSet_mono:
  assumes "ObserveRequest now t req = Inr t'" and "c \<in> childSet (nodes_get t p)"
  shows "c \<in> childSet (nodes_get t' p)"
  unfolding ObserveRequest_get [OF assms(1)]
  using assms(2) by (auto simp add: childSet_linkChild childSet_upsertNode_node)

lemma ObserveRequest_childSet_new:
  assumes "ObserveRequest now t req = Inr t'" and "ParentDispatchId req \<noteq> []"
  shows "DispatchId req \<in> childSet (nodes_get t' (ParentDispatchId req))"
  unfolding ObserveRequest_get [OF assms(1)]
  using assms(2) by (simp add: childSet_linkChild)

lemma ObserveRequest_roots_wf:
  assumes "ObserveRequest now t req = Inr t'" and "roots_wf t"
  shows "roots_wf t' \<and> RootDispatchId req \<in> set (orderedRoots t') \<and>
         set (orderedRoots t) \<subseteq> set (orderedRoots t') \<and>
         (RootDispatchId req \<in> set (orderedRoots t) \<longrightarrow> orderedRoots t' = orderedRoots t)"
proof -
  note e = ObserveRequest_Inr [OF assms(1)]
  have r: "roots t' = Some (insert (RootDispatchId req) (set (orderedRoots t)))"
    and o: "orderedRoots t' =
         (if RootDispatchId req \<in> set (orderedRoots t) then orderedRoots t
          else orderedRoots t @ [RootDispatchId req])"
    using assms(2) by (subst e, simp add: roots_wf_def)+
  show ?thesis
    using assms(2) unfolding roots_wf_def r o by auto
qed


lemma ObserveRequest_known_edge:
  assumes "DispatchId req \<in> childSet (nodes_get t (ParentDispatchId req)) \<or>
           ParentDispatchId req = []"
  shows "\<exists>t'. ObserveRequest now t req = Inr t' \<and>
           (\<forall>k. orderedChildren (nodes_get t' k) = orderedChildren (nodes_get t k))"
proof -
  have "nodes_lookup t (ParentDispatchId req) \<noteq> None \<or> ParentDispatchId req = []"
    using assms by (auto simp add: nodes_get_lookup childSet_def node_zero_def
        split: option.splits)
  then have "\<And>x. ObserveRequest now t req \<noteq> Inl x"
    unfolding ObserveRequest_panic by auto
  then obtain t' where r: "ObserveRequest now t req = Inr t'"
    by (cases "ObserveRequest now t req") auto
  have "orderedChildren (nodes_get t' k) = orderedChildren (nodes_get t k)" for k
    unfolding ObserveRequest_get [OF r]
    using assms
    by (auto simp add: orderedChildren_linkChild childSet_upsertNode_node
        upsertNode_node_fields)
  with r show ?thesis by blast
qed

lemma ObserveRequests_wf:
  assumes "ObserveRequests t0 evs = Inr t"
    and "roots_wf t0" and "\<And>k. children_wf (nodes_get t0 k)"
  shows "roots_wf t \<and> (\<forall>k. children_wf (nodes_get t k)) \<and>
         set (orderedRoots t0) \<subseteq> set (orderedRoots t) \<and>
         (\<forall>p c. c \<in> childSet (nodes_get t0 p) \<longrightarrow> c \<in> childSet (nodes_get t p)) \<and>
         (\<forall>ev \<in> set evs.
            RootDispatchId (snd ev) \<in> set (orderedRoots t) \<and>
            (ParentDispatchId (snd ev) \<noteq> [] \<longrightarrow>
               DispatchId (snd ev) \<in> childSet (nodes_get t (ParentDispatchId (snd ev)))))"
  using assms
proof (induction evs arbitrary: t0)
  case Nil
  then show ?case by simp
next
  case (Cons ev evs)
  obtain now req where ev: "ev = (now, req)" by (cases ev)
  from Cons.prems(1) obtain t1 where
    s1: "ObserveRequest now t0 req = Inr t1" and
    s2: "ObserveRequests t1 evs = Inr t"
    by (auto simp add: ev split: sum.splits)
  note r1 = ObserveRequest_roots_wf [OF s1 Cons.prems(2)]
  have c1: "children_wf (nodes_get t1 k)" for k
    by (rule ObserveRequest_children_wf [OF s1 Cons.prems(3)])
  from r1 have w1: "roots_wf t1" by simp
  note ih = Cons.IH [OF s2 w1 c1]
  have a: "roots_wf t" and b: "\<forall>k. children_wf (nodes_get t k)"
    and sub: "set (orderedRoots t1) \<subseteq> set (orderedRoots t)"
    and mono: "\<And>p c. c \<in> childSet (nodes_get t1 p) \<Longrightarrow> c \<in> childSet (nodes_get t p)"
    and rest: "\<forall>ev \<in> set evs.
            RootDispatchId (snd ev) \<in> set (orderedRoots t) \<and>
            (ParentDispatchId (snd ev) \<noteq> [] \<longrightarrow>
               DispatchId (snd ev) \<in> childSet (nodes_get t (ParentDispatchId (snd ev))))"
    using ih by blast+
  have c: "set (orderedRoots t0) \<subseteq> set (orderedRoots t)"
    using r1 sub by blast
  have d: "\<forall>p c. c \<in> childSet (nodes_get t0 p) \<longrightarrow> c \<in> childSet (nodes_get t p)"
    using ObserveRequest_childSet_mono [OF s1] mono by blast
  have e1: "RootDispatchId req \<in> set (orderedRoots t)"
    using r1 sub by blast
  have e2: "ParentDispatchId req \<noteq> [] \<longrightarrow>
               DispatchId req \<in> childSet (nodes_get t (ParentDispatchId req))"
    using ObserveRequest_childSet_new [OF s1] mono by blast
  from a b c d e1 e2 rest show ?case
    by (simp add: ev)
qed

lemma TUI_zero_wf: "roots_wf (TUI_zero sp)" "children_wf (nodes_get (TUI_zero sp) k)"
  by (simp_all add: roots_wf_def TUI_zero_def nodes_get_def children_wf_zero)

text \<open>
  Claim C6. After every sequence of requests observed from the zero store, for each
  request of the sequence: its root id occurs exactly once in the root registry; if it
  names a parent, its id occurs exactly once in the ordered child list of the parent;
  and observing once more any request with the same parent and id succeeds and leaves the
  ordered child list of every node as it is (no duplicate, no reordering), and also the
  root registry when the root id is the same.
\<close>

theorem ObserveRequest_idempotent:
  assumes "ObserveRequests (TUI_zero sp) evs = Inr t" and "(now, r) \<in> set evs"
  shows "count_list (orderedRoots t) (RootDispatchId r) = 1 \<and>
         (ParentDispatchId r \<noteq> [] \<longrightarrow>
            count_list (orderedChildren (nodes_get t (ParentDispatchId r))) (DispatchId r) = 1) \<and>
         (\<forall>now' r'. ParentDispatchId r' = ParentDispatchId r \<and> DispatchId r' = DispatchId r \<longrightarrow>
            (\<exists>t'. ObserveRequest now' t r' = Inr t' \<and>
               (\<forall>k. orderedChildren (nodes_get t' k) = orderedChildren (nodes_get t k)) \<and>
               (RootDispatchId r' = RootDispatchId r \<longrightarrow> orderedRoots t' = orderedRoots t)))"
proof -
  note wf = ObserveRequests_wf [OF assms(1) TUI_zero_wf]
  from wf have rw: "roots_wf t" and cw: "\<And>k. children_wf (nodes_get t k)"
    by blast+
  from wf assms(2) have root: "RootDispatchId r \<in> set (orderedRoots t)"
    and edge: "ParentDispatchId r \<noteq> [] \<longrightarrow>
                 DispatchId r \<in> childSet (nodes_get t (ParentDispatchId r))"
    by force+
  have 1: "count_list (orderedRoots t) (RootDispatchId r) = 1"
    using rw root by (simp add: roots_wf_def count_list_distinct)
  have 2: "ParentDispatchId r \<noteq> [] \<longrightarrow>
            count_list (orderedChildren (nodes_get t (ParentDispatchId r))) (DispatchId r) = 1"
    using cw [of "ParentDispatchId r"] edge
    by (auto simp add: children_wf_def count_list_distinct)
  have 3: "\<exists>t'. ObserveRequest now' t r' = Inr t' \<and>
               (\<forall>k. orderedChildren (nodes_get t' k) = orderedChildren (nodes_get t k)) \<and>
               (RootDispatchId r' = RootDispatchId r \<longrightarrow> orderedRoots t' = orderedRoots t)"
    if same: "ParentDispatchId r' = ParentDispatchId r \<and> DispatchId r' = DispatchId r"
    for now' r'
  proof -
    have "DispatchId r' \<in> childSet (nodes_get t (ParentDispatchId r')) \<or>
           ParentDispatchId r' = []"
      using edge same by auto
    from ObserveRequest_known_edge [OF this, of now']
    obtain t' where s: "ObserveRequest now' t r' = Inr t'"
      and k: "\<forall>k. orderedChildren (nodes_get t' k) = orderedChildren (nodes_get t k)"
      by blast
    from ObserveRequest_roots_wf [OF s rw] root
    have "RootDispatchId r' = RootDispatchId r \<longrightarrow> orderedRoots t' = orderedRoots t"
      by auto
    with s k show ?thesis by blast
  qed
  from 1 2 3 show ?thesis by blast
qed


theorem ObserveRequest_idempotent_witness:
  "(case ObserveRequests (TUI_zero ''*'')
      [(1, \<lparr>RootDispatchId = ''A'', ParentDispatchId = [], DispatchId = ''A'',
            Function = ''f'', CreationTime = None, ExpirationTime = None\<rparr>),
       (2, \<lparr>RootDispatchId = ''A'', ParentDispatchId = ''A'', DispatchId = ''B'',
            Function = ''g'', CreationTime = None, ExpirationTime = None\<rparr>),
       (3, \<lparr>RootDispatchId = ''A'', ParentDispatchId = ''A'', DispatchId = ''B'',
            Function = ''g'', CreationTime = None, ExpirationTime = None\<rparr>)] of
      Inl p \<Rightarrow> None
    | Inr t \<Rightarrow>
        Some (count_list (orderedRoots t) ''A'',
              count_list (orderedChildren (nodes_get t ''A'')) ''B'',
              orderedRoots t, orderedChildren (nodes_get t ''A''),
              map_sum (\<lambda>p. p) (\<lambda>t'. (orderedRoots t', orderedChildren (nodes_get t' ''A'')))
                (ObserveRequest 9 t
                   \<lparr>RootDispatchId = ''A'', ParentDispatchId = ''A'', DispatchId = ''B'',
                    Function = ''h'', CreationTime = Some 7, ExpirationTime = None\<rparr>))) =
   Some (1, 1, [''A''], [''B''], Inr ([''A''], [''B'']))"
proof -
  let ?a = "\<lparr>RootDispatchId = ''A'', ParentDispatchId = [], DispatchId = ''A'',
            Function = ''f'', CreationTime = None, ExpirationTime = None\<rparr>"
  let ?b = "\<lparr>RootDispatchId = ''A'', ParentDispatchId = ''A'', DispatchId = ''B'',
            Function = ''g'', CreationTime = None, ExpirationTime = None\<rparr>"
  let ?c = "\<lparr>RootDispatchId = ''A'', ParentDispatchId = ''A'', DispatchId = ''B'',
                    Function = ''h'', CreationTime = Some 7, ExpirationTime = None\<rparr>"
  let ?evs = "[(1, ?a), (2, ?b), (3, ?b)]"
  obtain t where run: "ObserveRequests (TUI_zero ''*'') ?evs = Inr t"
    by (simp add: eval_defs)
  have lists: "orderedRoots t = [''A'']" "orderedChildren (nodes_get t ''A'') = [''B'']"
    using run by (auto simp add: eval_defs)
  have mem: "(2, ?b) \<in> set ?evs" by simp
  note th = ObserveRequest_idempotent [OF run mem]
  from th have c1: "count_list (orderedRoots t) ''A'' = 1"
    and c2: "count_list (orderedChildren (nodes_get t ''A'')) ''B'' = 1"
    by simp_all
  from th [THEN conjunct2, THEN conjunct2, rule_format, of ?c 9]
  have "\<exists>t'. ObserveRequest 9 t ?c = Inr t' \<and>
               (\<forall>k. orderedChildren (nodes_get t' k) = orderedChildren (nodes_get t k)) \<and>
               (RootDispatchId ?c = RootDispatchId ?b \<longrightarrow> orderedRoots t' = orderedRoots t)"
    by simp
  then obtain t' where s: "ObserveRequest 9 t ?c = Inr t'"
    and k: "orderedChildren (nodes_get t' ''A'') = orderedChildren (nodes_get t ''A'')"
    and o: "orderedRoots t' = orderedRoots t"
    by auto
  show ?thesis
    unfolding run by (simp add: c1 c2 lists s k o)
qed

end
